theory Spec2Isabelle
  imports Complex_Main "HOL-Library.Log_Nat"
begin

section \<open>Numbers\<close>

text \<open>
  The component \<^verbatim>\<open>AQIMap\<close> (file \<^verbatim>\<open>src/components/dashboard/AQIMap.tsx\<close>) holds a list
  of monitored locations, estimates the index at a clicked point and re-fetches the list
  on a timer.

  A TypeScript \<^verbatim>\<open>number\<close> is an IEEE 754 binary64 value. A finite double is read here
  as the real number it denotes, and every arithmetic operation of the source is the
  exact operation followed by rounding to the nearest double, ties to the even
  significand: \<open>fl\<close>. A decimal literal \<^verbatim>\<open>d\<close> of the source denotes \<open>fl d\<close>; whole
  numbers such as 100 or 300 are doubles and are written as they are.

  What the model leaves out: the exponent range is unbounded, so there is no overflow to
  an infinity and no gradual underflow (neither arises for coordinates in degrees and
  indices of ordinary size), and NaN is not a value. \<^verbatim>\<open>Math.pow(x, 2)\<close>, which the
  language standard leaves to the implementation, is taken to be the correctly rounded
  square.
\<close>

text \<open>
  The exponent of a non-zero real: the integer \<open>e\<close> with \<open>2\<^sup>e \<le> \<bar>x\<bar> < 2\<^sup>e\<^sup>+\<^sup>1\<close>. At 1 and
  above it is one less than the bit length of the integer part. Below 1 it is read off
  the bit length of the integer part of the reciprocal: with \<open>2\<^sup>k \<le> 1 / a < 2\<^sup>k\<^sup>+\<^sup>1\<close> the
  exponent is \<open>- k\<close> when \<open>a\<close> is the power \<open>2\<^sup>-\<^sup>k\<close> itself and \<open>- k - 1\<close> otherwise.
\<close>

definition expo_small :: "real \<Rightarrow> int \<Rightarrow> int" where
  "expo_small a k = (if a * 2 ^ nat k = 1 then - k else - k - 1)"

definition expo_abs :: "real \<Rightarrow> int" where
  "expo_abs a =
     (if 1 \<le> a then bitlen \<lfloor>a\<rfloor> - 1 else expo_small a (bitlen \<lfloor>1 / a\<rfloor> - 1))"

definition expo :: "real \<Rightarrow> int" where
  "expo x = expo_abs \<bar>x\<bar>"

text \<open>
  Rounding to the nearest integer, a tie going to the even one; \<open>f\<close> is the integer
  part of \<open>m\<close>.
\<close>

definition rne_from :: "int \<Rightarrow> real \<Rightarrow> int" where
  "rne_from f m =
     (if m - of_int f < 1 / 2 then f
      else if 1 / 2 < m - of_int f then f + 1
      else if even f then f else f + 1)"

definition rne :: "real \<Rightarrow> int" where
  "rne m = rne_from \<lfloor>m\<rfloor> m"

text \<open>
  Rounding to binary64. With \<open>e\<close> the exponent of \<open>x\<close>, the doubles around \<open>x\<close> are the
  integer multiples of \<open>u = 2\<^sup>e\<^sup>-\<^sup>5\<^sup>2\<close>: the significand \<open>x / u\<close> lies between \<open>2\<^sup>5\<^sup>2\<close> and
  \<open>2\<^sup>5\<^sup>3\<close> and is rounded to an integer.
\<close>

definition round_to_multiple :: "real \<Rightarrow> real \<Rightarrow> real" where
  "round_to_multiple x u = of_int (rne (x / u)) * u"

definition fl :: "real \<Rightarrow> real" where
  "fl x = (if x = 0 then 0 else round_to_multiple x (2 powi (expo x - 52)))"

text \<open>
  The operators \<^verbatim>\<open>+\<close>, \<^verbatim>\<open>-\<close>, \<^verbatim>\<open>*\<close> and \<^verbatim>\<open>/\<close> on doubles, and the two library
  functions the estimator calls. \<^verbatim>\<open>a / b\<close> never raises in JavaScript: with a zero
  divisor it yields an infinity or NaN. The model makes that outcome visible as \<open>None\<close>,
  so that "no division by zero happens" is a statement about the result.
  \<^verbatim>\<open>Math.abs\<close> is exact and is written \<open>\<bar>x\<bar>\<close>. \<^verbatim>\<open>Math.round\<close> is exact as well: the
  nearest integer, a tie going towards plus infinity, which is \<^term>\<open>round\<close> of HOL
  (\<open>round x = \<lfloor>x + 1/2\<rfloor>\<close>).
\<close>

definition js_add :: "real \<Rightarrow> real \<Rightarrow> real" where
  "js_add x y = fl (x + y)"

definition js_sub :: "real \<Rightarrow> real \<Rightarrow> real" where
  "js_sub x y = fl (x - y)"

definition js_mul :: "real \<Rightarrow> real \<Rightarrow> real" where
  "js_mul x y = fl (x * y)"

definition js_div :: "real \<Rightarrow> real \<Rightarrow> real option" where
  "js_div a b = (if b = 0 then None else Some (fl (a / b)))"

definition Math_pow_2 :: "real \<Rightarrow> real" where
  "Math_pow_2 x = fl (x * x)"

definition Math_round :: "real \<Rightarrow> real" where
  "Math_round x = of_int (round x)"

section \<open>The spatial estimator\<close>

record Location =
  location :: string
  coordinates :: "real \<times> real"
  aqi :: real
  pm25 :: "real option"

text \<open>
  \<^verbatim>\<open>
  const nearbyLocation = locations.find(loc => {
    const [locLat, locLng] = loc.coordinates;
    return Math.abs(lat - locLat) < 0.005 && Math.abs(lng - locLng) < 0.005;
  });
  \<close>
  The predicate handed to \<^verbatim>\<open>find\<close>.
\<close>

definition nearby :: "real \<Rightarrow> real \<Rightarrow> Location \<Rightarrow> bool" where
  "nearby lat lng loc =
     (case coordinates loc of (locLat, locLng) \<Rightarrow>
        \<bar>js_sub lat locLat\<bar> < fl 0.005 \<and> \<bar>js_sub lng locLng\<bar> < fl 0.005)"

text \<open>
  \<^verbatim>\<open>
  const distSquared = Math.pow(lat - locLat, 2) + Math.pow(lng - locLng, 2);
  const weight = distSquared === 0 ? 1 : 1 / distSquared;
  \<close>
\<close>

definition distSquared :: "real \<Rightarrow> real \<Rightarrow> Location \<Rightarrow> real" where
  "distSquared lat lng loc =
     (case coordinates loc of (locLat, locLng) \<Rightarrow>
        js_add (Math_pow_2 (js_sub lat locLat)) (Math_pow_2 (js_sub lng locLng)))"

definition weight :: "real \<Rightarrow> real \<Rightarrow> Location \<Rightarrow> real option" where
  "weight lat lng loc =
     (if distSquared lat lng loc = 0 then Some 1 else js_div 1 (distSquared lat lng loc))"

text \<open>
  The body of \<^verbatim>\<open>locations.forEach\<close>,
  \<^verbatim>\<open>weightSum += weight; aqiSum += loc.aqi * weight;\<close>, with the two accumulators
  passed along; both start at 0.
\<close>

fun idw_loop :: "real \<Rightarrow> real \<Rightarrow> Location list \<Rightarrow> real \<times> real \<Rightarrow> (real \<times> real) option" where
  "idw_loop lat lng [] acc = Some acc"
| "idw_loop lat lng (loc # locs) (weightSum, aqiSum) =
     (case weight lat lng loc of
        None \<Rightarrow> None
      | Some w \<Rightarrow>
          idw_loop lat lng locs (js_add weightSum w, js_add aqiSum (js_mul (aqi loc) w)))"

text \<open>
  \<^verbatim>\<open>
  const estimateAQI = (lat: number, lng: number): number => {
    if (locations.length === 0) return 0;
    const nearbyLocation = locations.find(...);
    if (nearbyLocation) return nearbyLocation.aqi;
    let weightSum = 0; let aqiSum = 0;
    locations.forEach(...);
    return Math.round(aqiSum / weightSum);
  };
  \<close>
  The component's \<^verbatim>\<open>locations\<close> state is the first argument.
\<close>

definition estimateAQI :: "Location list \<Rightarrow> real \<Rightarrow> real \<Rightarrow> real option" where
  "estimateAQI locations lat lng =
     (if length locations = 0 then Some 0
      else case find (nearby lat lng) locations of
        Some nearbyLocation \<Rightarrow> Some (aqi nearbyLocation)
      | None \<Rightarrow>
          (case idw_loop lat lng locations (0, 0) of
             None \<Rightarrow> None
           | Some (weightSum, aqiSum) \<Rightarrow> map_option Math_round (js_div aqiSum weightSum)))"

section \<open>The classification functions\<close>

text \<open>
  \<^verbatim>\<open>getAQICategory\<close> of \<^verbatim>\<open>AQIMap.tsx\<close>: a chain of early returns.
\<close>

definition getAQICategory :: "real \<Rightarrow> string" where
  "getAQICategory a =
     (if a \<le> 50 then ''Good''
      else if a \<le> 100 then ''Moderate''
      else if a \<le> 150 then ''Unhealthy for Sensitive Groups''
      else if a \<le> 200 then ''Unhealthy''
      else if a \<le> 300 then ''Very Unhealthy''
      else ''Hazardous'')"

text \<open>
  \<^verbatim>\<open>getAQILevel\<close> of \<^verbatim>\<open>AQIGauge.tsx\<close> returns an object with a label and two
  style classes (the field \<^verbatim>\<open>text\<close> is named \<open>text_\<close> here).
\<close>

record AQILevel =
  label :: string
  color :: string
  text_ :: string

definition getAQILevel :: "real \<Rightarrow> AQILevel" where
  "getAQILevel a =
     (if a \<le> 50 then
        \<lparr>label = ''Good'', color = ''bg-green-500'', text_ = ''text-green-500''\<rparr>
      else if a \<le> 100 then
        \<lparr>label = ''Moderate'', color = ''bg-yellow-500'', text_ = ''text-yellow-500''\<rparr>
      else if a \<le> 150 then
        \<lparr>label = ''Unhealthy for Sensitive Groups'', color = ''bg-orange-500'',
         text_ = ''text-orange-500''\<rparr>
      else if a \<le> 200 then
        \<lparr>label = ''Unhealthy'', color = ''bg-red-500'', text_ = ''text-red-500''\<rparr>
      else if a \<le> 300 then
        \<lparr>label = ''Very Unhealthy'', color = ''bg-purple-500'', text_ = ''text-purple-500''\<rparr>
      else
        \<lparr>label = ''Hazardous'', color = ''bg-red-900'', text_ = ''text-red-900''\<rparr>)"

text \<open>
  \<^verbatim>\<open>getAQILabel\<close> of the forecast page in \<^verbatim>\<open>Alerts.tsx\<close>.
\<close>

definition getAQILabel :: "real \<Rightarrow> string" where
  "getAQILabel a =
     (if a \<le> 50 then ''Good''
      else if a \<le> 100 then ''Moderate''
      else if a \<le> 150 then ''Unhealthy for Sensitive Groups''
      else if a \<le> 200 then ''Unhealthy''
      else if a \<le> 300 then ''Very Unhealthy''
      else ''Hazardous'')"

text \<open>
  The table as the specification words it, kept apart from the three functions above:
  five rows "index at most the bound gives the category", read from the top, and
  Hazardous for an index above 300.
\<close>

definition spec_table :: "(real \<times> string) list" where
  "spec_table =
     [(50, ''Good''), (100, ''Moderate''), (150, ''Unhealthy for Sensitive Groups''),
      (200, ''Unhealthy''), (300, ''Very Unhealthy'')]"

definition spec_category :: "real \<Rightarrow> string" where
  "spec_category idx =
     (case find (\<lambda>row. idx \<le> fst row) spec_table of
        Some row \<Rightarrow> snd row
      | None \<Rightarrow> ''Hazardous'')"

text \<open>
  The interpolation as the specification words it, in the arithmetic of the number type.
  The squared distance of a location from the point is the planar Euclidean one, in
  degrees: the square of the difference in latitude plus the square of the difference
  in longitude. The weight of a location is the reciprocal of that distance, and 1 when
  the distance is exactly 0. The estimate is the sum of weight times index divided by
  the sum of the weights, rounded to the nearest integer; a sum runs over the locations
  in iteration order, from 0.
\<close>

definition spec_squared_distance :: "real \<Rightarrow> real \<Rightarrow> Location \<Rightarrow> real" where
  "spec_squared_distance lat lng loc =
     js_add
       (js_mul (js_sub lat (fst (coordinates loc))) (js_sub lat (fst (coordinates loc))))
       (js_mul (js_sub lng (snd (coordinates loc))) (js_sub lng (snd (coordinates loc))))"

definition spec_weight :: "real \<Rightarrow> real \<Rightarrow> Location \<Rightarrow> real" where
  "spec_weight lat lng loc =
     (if spec_squared_distance lat lng loc = 0 then 1
      else fl (1 / spec_squared_distance lat lng loc))"

definition spec_sum :: "real list \<Rightarrow> real" where
  "spec_sum xs = foldl js_add 0 xs"

definition spec_idw :: "Location list \<Rightarrow> real \<Rightarrow> real \<Rightarrow> real" where
  "spec_idw locs lat lng =
     Math_round
       (fl (spec_sum (map (\<lambda>loc. js_mul (spec_weight lat lng loc) (aqi loc)) locs)
            / spec_sum (map (spec_weight lat lng) locs)))"

text \<open>
  The same formula read over the real numbers, every operation exact: what the words of
  the specification say when no rounding is meant.
\<close>

definition exact_squared_distance :: "real \<Rightarrow> real \<Rightarrow> Location \<Rightarrow> real" where
  "exact_squared_distance lat lng loc =
     (lat - fst (coordinates loc))\<^sup>2 + (lng - snd (coordinates loc))\<^sup>2"

definition exact_weight :: "real \<Rightarrow> real \<Rightarrow> Location \<Rightarrow> real" where
  "exact_weight lat lng loc =
     (if exact_squared_distance lat lng loc = 0 then 1
      else 1 / exact_squared_distance lat lng loc)"

definition exact_idw :: "Location list \<Rightarrow> real \<Rightarrow> real \<Rightarrow> real" where
  "exact_idw locs lat lng =
     of_int (round ((\<Sum>loc\<leftarrow>locs. exact_weight lat lng loc * aqi loc)
                    / (\<Sum>loc\<leftarrow>locs. exact_weight lat lng loc)))"

section \<open>The refresh scheduler\<close>

text \<open>
  The state of the component that the refresh logic reads and writes: the
  \<^verbatim>\<open>useState\<close> cells of \<^verbatim>\<open>AQIMap\<close>, and \<open>inFlight\<close>, the number of calls of
  \<^verbatim>\<open>fetchGeospatialData\<close> whose promise has not settled yet. The countdown only ever
  holds 300 or a predecessor of a value it held, so it is an integer. The cell
  \<^verbatim>\<open>clickedLocation\<close> and the map reference play no part in refreshing and are left
  out.
\<close>

record AQIMapState =
  locations :: "Location list"
  loading :: bool
  error :: "string option"
  lastUpdated :: string
  isRefreshing :: bool
  autoRefreshEnabled :: bool
  countdown :: int
  inFlight :: nat

text \<open>The initial values of the \<^verbatim>\<open>useState\<close> calls; \<open>initialLoading\<close> is the prop.\<close>

definition initialState :: "bool \<Rightarrow> AQIMapState" where
  "initialState initialLoading =
     \<lparr>locations = [], loading = initialLoading, error = None, lastUpdated = [],
      isRefreshing = False, autoRefreshEnabled = True, countdown = 300, inFlight = 0\<rparr>"

text \<open>
  The fallback list written in the \<^verbatim>\<open>catch\<close> block of \<^verbatim>\<open>getMapData\<close>; its
  coordinates are decimal literals, so doubles.
\<close>

definition fallbackLocations :: "Location list" where
  "fallbackLocations =
     [\<lparr>location = ''Sector 56'', coordinates = (fl 28.4089, fl 77.0926), aqi = 175, pm25 = None\<rparr>,
      \<lparr>location = ''DLF Cyber City'', coordinates = (fl 28.4595, fl 77.0266), aqi = 160, pm25 = None\<rparr>,
      \<lparr>location = ''Golf Course Road'', coordinates = (fl 28.4321, fl 77.1025), aqi = 155, pm25 = None\<rparr>,
      \<lparr>location = ''MG Road'', coordinates = (fl 28.4773, fl 77.0497), aqi = 168, pm25 = None\<rparr>]"

text \<open>
  \<^verbatim>\<open>getMapData\<close> is asynchronous. Up to the \<^verbatim>\<open>await\<close> it sets
  \<^verbatim>\<open>isRefreshing\<close> and issues the request: \<open>getMapData_start\<close>. When the promise
  settles, the rest of the \<^verbatim>\<open>try\<close> block or the \<^verbatim>\<open>catch\<close> block runs, and then
  the \<^verbatim>\<open>finally\<close> block. \<open>now\<close> is the text of
  \<^verbatim>\<open>new Date().toLocaleString()\<close> at that moment.
\<close>

definition getMapData_start :: "AQIMapState \<Rightarrow> AQIMapState" where
  "getMapData_start s = s\<lparr>isRefreshing := True, inFlight := inFlight s + 1\<rparr>"

definition getMapData_finally :: "AQIMapState \<Rightarrow> AQIMapState" where
  "getMapData_finally s = s\<lparr>loading := False, isRefreshing := False, countdown := 300\<rparr>"

definition getMapData_resolved :: "Location list \<Rightarrow> string \<Rightarrow> AQIMapState \<Rightarrow> AQIMapState" where
  "getMapData_resolved data now s =
     getMapData_finally
       (s\<lparr>locations := data, lastUpdated := now, error := None, inFlight := inFlight s - 1\<rparr>)"

definition getMapData_rejected :: "string \<Rightarrow> AQIMapState \<Rightarrow> AQIMapState" where
  "getMapData_rejected now s =
     getMapData_finally
       (s\<lparr>error := Some ''Failed to load map data'', locations := fallbackLocations,
          lastUpdated := now @ '' (fallback data)'', inFlight := inFlight s - 1\<rparr>)"

text \<open>
  The mount effect: \<^verbatim>\<open>setLoading(true); getMapData();\<close>. The timer effect of the same
  render installs the interval, since \<^verbatim>\<open>autoRefreshEnabled\<close> starts true.
\<close>

definition mount :: "AQIMapState \<Rightarrow> AQIMapState" where
  "mount s = getMapData_start (s\<lparr>loading := True\<rparr>)"

text \<open>
  The interval callback:
  \<^verbatim>\<open>
  setCountdown((prev) => {
    if (prev <= 1) { getMapData(); return 300; }
    return prev - 1;
  });
  \<close>
  It reads no other cell: neither \<^verbatim>\<open>isRefreshing\<close> nor \<^verbatim>\<open>loading\<close>.
\<close>

definition countdownTimer :: "AQIMapState \<Rightarrow> AQIMapState" where
  "countdownTimer s =
     (if countdown s \<le> 1 then getMapData_start (s\<lparr>countdown := 300\<rparr>)
      else s\<lparr>countdown := countdown s - 1\<rparr>)"

text \<open>\<^verbatim>\<open>toggleAutoRefresh\<close>: \<^verbatim>\<open>setAutoRefreshEnabled(!autoRefreshEnabled)\<close>, nothing else.\<close>

definition toggleAutoRefresh :: "AQIMapState \<Rightarrow> AQIMapState" where
  "toggleAutoRefresh s = s\<lparr>autoRefreshEnabled := \<not> autoRefreshEnabled s\<rparr>"

text \<open>
  What can happen to the component, and when:
  \<^item> \<open>Tick\<close>: the interval fires. The effect installs the interval only while
    \<^verbatim>\<open>autoRefreshEnabled\<close> holds and its cleanup clears it, so a tick needs the flag.
  \<^item> \<open>ToggleAutoRefresh\<close>: a click on the ON/OFF button. While \<^verbatim>\<open>loading\<close> holds the
    component renders the placeholder only, so there is no button.
  \<^item> \<open>RefreshNow\<close>: a click on the button whose handler is \<^verbatim>\<open>() => getMapData()\<close>. It is
    rendered with \<^verbatim>\<open>disabled={isRefreshing}\<close>, and not at all while loading.
  \<^item> \<open>FetchResolved data now\<close>, \<open>FetchRejected now\<close>: one outstanding promise settles.
  An event that cannot happen in a state gives \<open>None\<close>.
\<close>

datatype event =
    Tick
  | ToggleAutoRefresh
  | RefreshNow
  | FetchResolved "Location list" string
  | FetchRejected string

fun step :: "AQIMapState \<Rightarrow> event \<Rightarrow> AQIMapState option" where
  "step s Tick = (if autoRefreshEnabled s then Some (countdownTimer s) else None)"
| "step s ToggleAutoRefresh = (if loading s then None else Some (toggleAutoRefresh s))"
| "step s RefreshNow =
     (if loading s \<or> isRefreshing s then None else Some (getMapData_start s))"
| "step s (FetchResolved data now) =
     (if inFlight s = 0 then None else Some (getMapData_resolved data now s))"
| "step s (FetchRejected now) =
     (if inFlight s = 0 then None else Some (getMapData_rejected now s))"

text \<open>The events by which an outstanding promise settles.\<close>

fun settles :: "event \<Rightarrow> bool" where
  "settles (FetchResolved data now) = True"
| "settles (FetchRejected now) = True"
| "settles e = False"

text \<open>A sequence of events, from the left; it stops at the first impossible one.\<close>

fun run :: "AQIMapState \<Rightarrow> event list \<Rightarrow> AQIMapState option" where
  "run s [] = Some s"
| "run s (e # es) = (case step s e of None \<Rightarrow> None | Some s' \<Rightarrow> run s' es)"

text \<open>The states the mounted component can be in.\<close>

inductive reachable :: "AQIMapState \<Rightarrow> bool" where
  mounted: "reachable (mount (initialState initialLoading))"
| stepped: "reachable s \<Longrightarrow> step s e = Some s' \<Longrightarrow> reachable s'"

section \<open>Properties of rounding\<close>

text \<open>The three definitions with their helper functions unfolded.\<close>

lemma expo_unfold:
  "expo x =
     (let a = \<bar>x\<bar> in
        if 1 \<le> a then bitlen \<lfloor>a\<rfloor> - 1
        else (let k = bitlen \<lfloor>1 / a\<rfloor> - 1 in
                if a * 2 ^ nat k = 1 then - k else - k - 1))"
  by (simp add: expo_def expo_abs_def expo_small_def Let_def)

lemma rne_unfold:
  "rne m =
     (let f = \<lfloor>m\<rfloor>; r = m - of_int f in
        if r < 1 / 2 then f
        else if 1 / 2 < r then f + 1
        else if even f then f else f + 1)"
  by (simp add: rne_def rne_from_def Let_def)

lemma fl_unfold:
  "fl x = (if x = 0 then 0
           else of_int (rne (x / 2 powi (expo x - 52))) * 2 powi (expo x - 52))"
  by (simp add: fl_def round_to_multiple_def)

text \<open>\<open>expo\<close> is the exponent: \<open>\<bar>x\<bar>\<close> lies in the binade that starts at \<open>2\<close> to the \<open>expo x\<close>.\<close>

lemma expo_bounds:
  assumes "x \<noteq> 0"
  shows "2 powi expo x \<le> \<bar>x\<bar>" and "\<bar>x\<bar> < 2 powi (expo x + 1)"
proof -
  define a where "a = \<bar>x\<bar>"
  have a: "0 < a" using assms by (simp add: a_def)
  have "2 powi expo x \<le> a \<and> a < 2 powi (expo x + 1)"
  proof (cases "1 \<le> a")
    case True
    define n where "n = \<lfloor>a\<rfloor>"
    have n: "0 < n" using True by (simp add: n_def)
    have e: "expo x = bitlen n - 1"
      using True by (simp add: expo_unfold a_def n_def)
    have b1: "1 \<le> bitlen n" using n by (simp add: bitlen_alt_def)
    from bitlen_bounds [OF n] have lo: "2 ^ nat (bitlen n - 1) \<le> n" and hi: "n < 2 ^ nat (bitlen n)"
      by auto
    have "real_of_int (2 ^ nat (bitlen n - 1)) \<le> of_int n" using lo by (simp only: of_int_le_iff)
    also have "\<dots> \<le> a" by (simp add: n_def)
    finally have l: "2 powi (bitlen n - 1) \<le> a" using b1 by (simp add: power_int_def)
    from hi have "n + 1 \<le> 2 ^ nat (bitlen n)" by simp
    then have "real_of_int (n + 1) \<le> of_int (2 ^ nat (bitlen n))" by (simp only: of_int_le_iff)
    moreover have "a < of_int (n + 1)" by (simp add: n_def)
    ultimately have "a < 2 ^ nat (bitlen n)" by simp
    then have "a < 2 powi (bitlen n - 1 + 1)" using b1 by (simp add: power_int_def)
    with l e show ?thesis by simp
  next
    case False
    define b where "b = 1 / a"
    have b: "1 < b" using False a by (simp add: b_def)
    define n where "n = \<lfloor>b\<rfloor>"
    have n: "0 < n" using b by (simp add: n_def)
    define k where "k = bitlen n - 1"
    have k0: "0 \<le> k" using n by (simp add: k_def bitlen_alt_def)
    from bitlen_bounds [OF n] have lo: "2 ^ nat k \<le> n" and hi: "n < 2 ^ nat (k + 1)"
      by (auto simp: k_def)
    have "real_of_int (2 ^ nat k) \<le> of_int n" using lo by (simp only: of_int_le_iff)
    also have "\<dots> \<le> b" by (simp add: n_def)
    finally have lb: "2 ^ nat k \<le> b" by simp
    from hi have "n + 1 \<le> 2 ^ nat (k + 1)" by simp
    then have "real_of_int (n + 1) \<le> of_int (2 ^ nat (k + 1))" by (simp only: of_int_le_iff)
    moreover have "b < of_int (n + 1)" by (simp add: n_def)
    ultimately have ub: "b < 2 ^ nat (k + 1)" by simp
    have ale: "a \<le> 1 / 2 ^ nat k"
      using lb a by (simp add: b_def field_simps)
    have agt: "1 / 2 ^ nat (k + 1) < a"
      using ub a by (simp add: b_def field_simps)
    have e: "expo x = (if a * 2 ^ nat k = 1 then - k else - k - 1)"
      using False by (simp add: expo_unfold a_def [symmetric] b_def [symmetric] n_def [symmetric]
          k_def [symmetric] Let_def)
    have pk: "2 powi (- k) = 1 / (2::real) ^ nat k"
      using k0 by (simp add: power_int_def field_simps)
    have pk1: "2 powi (- k - 1) = 1 / (2::real) ^ nat (k + 1)"
      using k0 by (simp add: power_int_def field_simps nat_add_distrib)
    have pk2: "2 powi (- k + 1) = 2 / (2::real) ^ nat k"
    proof -
      have "(2::real) powi (- k + 1) = 2 powi (- k) * 2 powi 1"
        by (rule power_int_add) simp
      then show ?thesis using pk by simp
    qed
    show ?thesis
    proof (cases "a * 2 ^ nat k = 1")
      case True
      then have "a = 1 / 2 ^ nat k" by (simp add: field_simps)
      moreover have "1 / (2::real) ^ nat k < 2 / 2 ^ nat k"
        by (simp add: divide_strict_right_mono)
      ultimately show ?thesis using e True pk pk2 by simp
    next
      case False
      with ale have "a < 1 / 2 ^ nat k" by (simp add: field_simps)
      with e False agt pk pk1 show ?thesis by (simp add: less_imp_le)
    qed
  qed
  then show "2 powi expo x \<le> \<bar>x\<bar>" and "\<bar>x\<bar> < 2 powi (expo x + 1)"
    by (simp_all add: a_def)
qed

text \<open>
  A rounding moves a number by at most half a unit in the last place, which is at most
  a \<open>2\<^sup>5\<^sup>3\<close>-th of its magnitude, and keeps its sign.
\<close>

lemma rne_error: "\<bar>of_int (rne m) - m\<bar> \<le> 1 / 2"
proof -
  have "of_int \<lfloor>m\<rfloor> \<le> m" and "m < of_int \<lfloor>m\<rfloor> + 1" by linarith+
  then show ?thesis by (auto simp: rne_unfold Let_def)
qed

lemma fl_error: "\<bar>fl x - x\<bar> \<le> \<bar>x\<bar> / 2 ^ 53"
proof (cases "x = 0")
  case True
  then show ?thesis by (simp add: fl_unfold)
next
  case False
  define p :: real where "p = 2 powi (expo x - 52)"
  have p: "0 < p" by (simp add: p_def)
  have pe: "p * 2 ^ 52 = 2 powi expo x"
    by (simp add: p_def power_int_diff)
  have "fl x - x = (of_int (rne (x / p)) - x / p) * p"
    using False p by (simp add: fl_unfold p_def [symmetric] field_simps)
  then have "\<bar>fl x - x\<bar> = \<bar>of_int (rne (x / p)) - x / p\<bar> * p"
    using p by (simp add: abs_mult)
  also have "\<dots> \<le> 1 / 2 * p"
    using rne_error [of "x / p"] p by (intro mult_right_mono) simp_all
  also have "\<dots> = 2 powi expo x / 2 ^ 53" using pe by simp
  also have "\<dots> \<le> \<bar>x\<bar> / 2 ^ 53"
    using expo_bounds(1) [OF False] by (simp add: divide_right_mono)
  finally show ?thesis .
qed

lemma fl_zero: "fl 0 = 0"
  by (simp add: fl_unfold)

lemma fl_pos: "0 < x \<Longrightarrow> 0 < fl x"
  using fl_error [of x] by (simp add: abs_if field_simps split: if_splits)

lemma fl_neg: "x < 0 \<Longrightarrow> fl x < 0"
  using fl_error [of x] by (simp add: abs_if field_simps split: if_splits)

lemma fl_nonneg: "0 \<le> x \<Longrightarrow> 0 \<le> fl x"
  using fl_pos [of x] by (cases "x = 0") (simp_all add: fl_zero less_imp_le)

lemma fl_eq_0_iff: "fl x = 0 \<longleftrightarrow> x = 0"
  using fl_pos [of x] fl_neg [of x] by (cases x "0::real" rule: linorder_cases) (simp_all add: fl_zero)

section \<open>Properties of the estimator\<close>

text \<open>
  The loop computes the two sums of the specification's formula, and the sum of the
  weights is positive for a list that is not empty.
\<close>

lemma Math_pow_2_nonneg: "0 \<le> Math_pow_2 x"
  by (simp add: Math_pow_2_def fl_nonneg)

lemma distSquared_nonneg: "0 \<le> distSquared lat lng loc"
  by (simp add: distSquared_def js_add_def fl_nonneg Math_pow_2_nonneg split: prod.split)

lemma distSquared_spec: "distSquared lat lng loc = spec_squared_distance lat lng loc"
  by (simp add: distSquared_def spec_squared_distance_def Math_pow_2_def js_mul_def
      split: prod.split)

lemma weight_spec: "weight lat lng loc = Some (spec_weight lat lng loc)"
  by (simp add: weight_def spec_weight_def js_div_def distSquared_spec)

lemma spec_weight_pos: "0 < spec_weight lat lng loc"
proof -
  have "0 \<le> spec_squared_distance lat lng loc"
    using distSquared_nonneg [of lat lng loc] by (simp add: distSquared_spec)
  then show ?thesis by (simp add: spec_weight_def fl_pos)
qed

lemma idw_loop_sums:
  "idw_loop lat lng locs (weightSum, aqiSum) =
     Some (foldl js_add weightSum (map (spec_weight lat lng) locs),
           foldl js_add aqiSum (map (\<lambda>loc. js_mul (spec_weight lat lng loc) (aqi loc)) locs))"
proof (induction locs arbitrary: weightSum aqiSum)
  case Nil
  show ?case by simp
next
  case (Cons loc locs)
  have "js_mul (aqi loc) (spec_weight lat lng loc) = js_mul (spec_weight lat lng loc) (aqi loc)"
    by (simp add: js_mul_def mult.commute)
  with Cons show ?case by (simp add: weight_spec)
qed

lemma foldl_js_add_pos:
  assumes "0 \<le> acc" and "xs \<noteq> []" and "\<forall>x\<in>set xs. 0 < x"
  shows "0 < foldl js_add acc xs"
  using assms
proof (induction xs arbitrary: acc)
  case Nil
  then show ?case by simp
next
  case (Cons x xs)
  then have step: "0 < js_add acc x" by (simp add: js_add_def fl_pos)
  show ?case
  proof (cases "xs = []")
    case True
    with step show ?thesis by simp
  next
    case False
    with Cons step show ?thesis by simp
  qed
qed

lemma sum_spec_weight_pos:
  "locs \<noteq> [] \<Longrightarrow> 0 < spec_sum (map (spec_weight lat lng) locs)"
  unfolding spec_sum_def by (rule foldl_js_add_pos) (auto simp: spec_weight_pos)

lemma estimateAQI_no_nearby:
  assumes "locs \<noteq> []" and "find (nearby lat lng) locs = None"
  shows "estimateAQI locs lat lng = Some (spec_idw locs lat lng)"
proof -
  have pos: "spec_sum (map (spec_weight lat lng) locs) \<noteq> 0"
    using sum_spec_weight_pos [OF assms(1), of lat lng] by simp
  show ?thesis
    using assms pos
    by (simp add: estimateAQI_def idw_loop_sums js_div_def spec_idw_def spec_sum_def)
qed

lemma estimateAQI_nearby:
  assumes "find (nearby lat lng) locs = Some loc"
  shows "estimateAQI locs lat lng = Some (aqi loc)"
  using assms by (cases locs) (simp_all add: estimateAQI_def)

lemma find_hd_filter:
  "\<exists>x\<in>set xs. P x \<Longrightarrow> find P xs = Some (hd (filter P xs))"
  by (induction xs) auto

lemma find_first_index:
  "i < length xs \<Longrightarrow> P (xs ! i) \<Longrightarrow> \<forall>j<i. \<not> P (xs ! j) \<Longrightarrow> find P xs = Some (xs ! i)"
  by (auto simp: find_Some_iff)

lemma nearby_same_coordinates: "coordinates loc = (lat, lng) \<Longrightarrow> nearby lat lng loc"
  by (simp add: nearby_def js_sub_def fl_zero fl_pos)

lemma estimateAQI_loop_result:
  assumes "find (nearby lat lng) locs = None"
    and "idw_loop lat lng locs (0, 0) = Some (weightSum, aqiSum)"
    and "locs \<noteq> []"
  shows "estimateAQI locs lat lng = map_option Math_round (js_div aqiSum weightSum)"
  using assms by (simp add: estimateAQI_def)

text \<open>
  Equations for evaluating the estimator on numerals. The two definitions that take the
  coordinate pair apart are restated with projections.
\<close>

lemma nearby_eval:
  "nearby lat lng loc \<longleftrightarrow>
     \<bar>js_sub lat (fst (coordinates loc))\<bar> < fl 0.005
     \<and> \<bar>js_sub lng (snd (coordinates loc))\<bar> < fl 0.005"
  by (simp add: nearby_def split: prod.split)

lemma distSquared_eval:
  "distSquared lat lng loc =
     js_add (Math_pow_2 (js_sub lat (fst (coordinates loc))))
       (Math_pow_2 (js_sub lng (snd (coordinates loc))))"
  by (simp add: distSquared_def split: prod.split)

lemmas double_eval = fl_def round_to_multiple_def expo_def expo_abs_def expo_small_def
  rne_def rne_from_def compute_bitlen js_add_def js_sub_def js_mul_def js_div_def
  Math_pow_2_def Math_round_def round_def

lemma estimateAQI_defined: "estimateAQI locs lat lng \<noteq> None"
proof (cases "locs = []")
  case True
  then show ?thesis by (simp add: estimateAQI_def)
next
  case False
  show ?thesis
  proof (cases "find (nearby lat lng) locs")
    case None
    with False show ?thesis by (simp add: estimateAQI_no_nearby)
  next
    case (Some loc)
    then show ?thesis by (simp add: estimateAQI_nearby)
  qed
qed



text \<open>
  One location with weight \<open>w\<close> and index \<open>a\<close>: the loop leaves \<open>fl (0 + w)\<close> and
  \<open>fl (0 + fl (a * w))\<close> in the accumulators, and their rounded quotient is within four
  roundings of \<open>a\<close>.
\<close>

lemma single_location_error:
  assumes w: "0 < w"
  shows "\<bar>fl (js_add 0 (js_mul a w) / js_add 0 w) - a\<bar> \<le> \<bar>a\<bar> / 2 ^ 50"
proof -
  define t where "t = \<bar>a\<bar> * w"
  define x1 where "x1 = fl (a * w)"
  define A where "A = fl x1"
  define W where "W = fl w"
  define q0 where "q0 = A / W"
  have t0: "0 \<le> t" using w by (simp add: t_def)
  have aw: "\<bar>a * w\<bar> = t" using w by (simp add: t_def abs_mult)
  have e1: "\<bar>x1 - a * w\<bar> \<le> t / 2 ^ 53"
    using fl_error [of "a * w"] by (simp add: x1_def aw)
  have e2: "\<bar>A - x1\<bar> \<le> \<bar>x1\<bar> / 2 ^ 53"
    using fl_error [of x1] by (simp add: A_def)
  have x1b: "\<bar>x1\<bar> \<le> t + \<bar>x1 - a * w\<bar>"
    using abs_triangle_ineq [of "x1 - a * w" "a * w"] by (simp add: aw)
  have "\<bar>A - a * w\<bar> \<le> \<bar>A - x1\<bar> + \<bar>x1 - a * w\<bar>"
    using abs_triangle_ineq [of "A - x1" "x1 - a * w"] by simp
  also have "\<dots> \<le> (t + t / 2 ^ 53) / 2 ^ 53 + t / 2 ^ 53"
  proof -
    have "\<bar>x1\<bar> \<le> t + t / 2 ^ 53" using x1b e1 by linarith
    then have "\<bar>x1\<bar> / 2 ^ 53 \<le> (t + t / 2 ^ 53) / 2 ^ 53"
      by (rule divide_right_mono) simp
    with e1 e2 show ?thesis by linarith
  qed
  also have "\<dots> \<le> 3 * t / 2 ^ 53" using t0 by (simp add: field_simps)
  finally have eA: "\<bar>A - a * w\<bar> \<le> 3 * t / 2 ^ 53" .
  have eW: "\<bar>W - w\<bar> \<le> w / 2 ^ 53"
    using fl_error [of w] w by (simp add: W_def)
  have "w - W \<le> \<bar>W - w\<bar>" by linarith
  with eW have "w - W \<le> w / 2 ^ 53" by linarith
  moreover have "w / 2 ^ 53 \<le> w / 5" using w by (simp add: field_simps)
  ultimately have W45: "4 * w \<le> 5 * W" by linarith
  have Wpos: "0 < W" using W45 w by linarith
  have "\<bar>a * (w - W)\<bar> = \<bar>a\<bar> * \<bar>w - W\<bar>" by (simp add: abs_mult)
  also have "\<dots> \<le> \<bar>a\<bar> * (w / 2 ^ 53)"
    using eW by (intro mult_left_mono) (simp_all add: abs_minus_commute)
  finally have eaW: "\<bar>a * (w - W)\<bar> \<le> t / 2 ^ 53" by (simp add: t_def)
  have "A - a * W = (A - a * w) + a * (w - W)" by (simp add: algebra_simps)
  then have "\<bar>A - a * W\<bar> \<le> \<bar>A - a * w\<bar> + \<bar>a * (w - W)\<bar>"
    using abs_triangle_ineq [of "A - a * w" "a * (w - W)"] by simp
  with eA eaW have num: "\<bar>A - a * W\<bar> \<le> 4 * t / 2 ^ 53" by linarith
  have "q0 - a = (A - a * W) / W" using Wpos by (simp add: q0_def field_simps)
  then have "\<bar>q0 - a\<bar> * W = \<bar>A - a * W\<bar>" using Wpos by simp
  also have "\<dots> \<le> 4 * t / 2 ^ 53" by (rule num)
  also have "\<dots> = (4 * \<bar>a\<bar> / 2 ^ 53) * w" by (simp add: t_def)
  also have "\<dots> \<le> (4 * \<bar>a\<bar> / 2 ^ 53) * (5 / 4 * W)"
    using W45 by (intro mult_left_mono) simp_all
  also have "\<dots> = (5 * \<bar>a\<bar> / 2 ^ 53) * W" by simp
  finally have eq0: "\<bar>q0 - a\<bar> \<le> 5 * \<bar>a\<bar> / 2 ^ 53"
    using Wpos by (simp only: mult_le_cancel_right_pos)
  have eq: "\<bar>fl q0 - q0\<bar> \<le> \<bar>q0\<bar> / 2 ^ 53" by (rule fl_error)
  have q0b: "\<bar>q0\<bar> \<le> \<bar>a\<bar> + \<bar>q0 - a\<bar>"
    using abs_triangle_ineq [of "q0 - a" a] by simp
  have "5 * \<bar>a\<bar> / 2 ^ 53 \<le> \<bar>a\<bar>" by (simp add: field_simps)
  with q0b eq0 have "\<bar>q0\<bar> \<le> 2 * \<bar>a\<bar>" by linarith
  then have "\<bar>q0\<bar> / 2 ^ 53 \<le> 2 * \<bar>a\<bar> / 2 ^ 53"
    by (rule divide_right_mono) simp
  with eq have eq': "\<bar>fl q0 - q0\<bar> \<le> 2 * \<bar>a\<bar> / 2 ^ 53" by linarith
  have "\<bar>fl q0 - a\<bar> \<le> \<bar>fl q0 - q0\<bar> + \<bar>q0 - a\<bar>"
    using abs_triangle_ineq [of "fl q0 - q0" "q0 - a"] by simp
  with eq' eq0 have "\<bar>fl q0 - a\<bar> \<le> 7 * \<bar>a\<bar> / 2 ^ 53" by linarith
  also have "\<dots> \<le> \<bar>a\<bar> / 2 ^ 50" by (simp add: field_simps)
  finally show ?thesis
    by (simp add: q0_def A_def W_def x1_def js_add_def js_mul_def)
qed

text \<open>
  The estimator evaluated on doubles, one operation at a time. For the locations A
  (28.40, 77.00, index 100) and B (28.42, 77.02, index 200) and the point (28.41, 77.01)
  the quotient of the sums is a double slightly above 150.
\<close>

lemma estimateAQI_equidistant:
  "estimateAQI
     [\<lparr>location = ''A'', coordinates = (fl 28.40, fl 77.00), aqi = 100, pm25 = None\<rparr>,
      \<lparr>location = ''B'', coordinates = (fl 28.42, fl 77.02), aqi = 200, pm25 = None\<rparr>]
     (fl 28.41) (fl 77.01) = Some 150"
proof -
  let ?L0 = "\<lparr>location = ''A'', coordinates = (fl 28.40, fl 77.00), aqi = 100, pm25 = None\<rparr>"
  let ?L1 = "\<lparr>location = ''B'', coordinates = (fl 28.42, fl 77.02), aqi = 200, pm25 = None\<rparr>"
  have n0: "\<not> nearby (fl 28.41) (fl 77.01) ?L0"
    by (simp add: nearby_eval double_eval)
  have d0: "distSquared (fl 28.41) (fl 77.01) ?L0 = (7378697629488749 / 36893488147419103232)"
    by (simp add: distSquared_eval double_eval)
  have w0: "weight (fl 28.41) (fl 77.01) ?L0 = Some (687194767359541 / 137438953472)"
    unfolding weight_def d0 by (simp add: double_eval)
  have n1: "\<not> nearby (fl 28.41) (fl 77.01) ?L1"
    by (simp add: nearby_eval double_eval)
  have d1: "distSquared (fl 28.41) (fl 77.01) ?L1 = (922337203684783 / 4611686018427387904)"
    by (simp add: distSquared_eval double_eval)
  have w1: "weight (fl 28.41) (fl 77.01) ?L1 = Some (1374389534721035 / 274877906944)"
    unfolding weight_def d1 by (simp add: double_eval)
  have loop: "idw_loop (fl 28.41) (fl 77.01) [?L0, ?L1] (0, 0) = Some ((2748779069440117 / 274877906944), (805306368000225 / 536870912))"
    unfolding idw_loop.simps w0 w1 option.case by (simp add: double_eval)
  have none: "find (nearby (fl 28.41) (fl 77.01)) [?L0, ?L1] = None"
    using n0 n1 by simp
  have "estimateAQI [?L0, ?L1] (fl 28.41) (fl 77.01) = map_option Math_round (js_div (805306368000225 / 536870912) (2748779069440117 / 274877906944))"
    using none loop by (rule estimateAQI_loop_result) simp
  also have "\<dots> = Some 150"
    by (simp add: double_eval)
  finally show ?thesis .
qed

text \<open>
  The rounding of the doubles decides the result where the exact weighted mean is a tie
  or next to one. With P at (28.25, 77.265625), index 142, and Q at
  (28.28125, 77.015625), index 35, all of them doubles, the exact weighted mean at
  (28.421875, 77.25) is 111.5; the loop arrives at the double just below and the
  estimate is 111, not 112. A single location with index 175.5 gives 175 at
  (28.35, 77.054), and one with index 175.4 gives 175 at (28.41, 77.01).
\<close>

lemma estimateAQI_below_tie:
  "estimateAQI
     [\<lparr>location = ''P'', coordinates = (fl 28.25, fl 77.265625), aqi = 142, pm25 = None\<rparr>,
      \<lparr>location = ''Q'', coordinates = (fl 28.28125, fl 77.015625), aqi = 35, pm25 = None\<rparr>]
     (fl 28.421875) (fl 77.25) = Some 111"
proof -
  let ?L0 = "\<lparr>location = ''P'', coordinates = (fl 28.25, fl 77.265625), aqi = 142, pm25 = None\<rparr>"
  let ?L1 = "\<lparr>location = ''Q'', coordinates = (fl 28.28125, fl 77.015625), aqi = 35, pm25 = None\<rparr>"
  have n0: "\<not> nearby (fl 28.421875) (fl 77.25) ?L0"
    by (simp add: nearby_eval double_eval)
  have d0: "distSquared (fl 28.421875) (fl 77.25) ?L0 = (61 / 2048)"
    by (simp add: distSquared_eval double_eval)
  have w0: "weight (fl 28.421875) (fl 77.25) ?L0 = Some (4725088133634619 / 140737488355328)"
    unfolding weight_def d0 by (simp add: double_eval)
  have n1: "\<not> nearby (fl 28.421875) (fl 77.25) ?L1"
    by (simp add: nearby_eval double_eval)
  have d1: "distSquared (fl 28.421875) (fl 77.25) ?L1 = (153 / 2048)"
    by (simp add: distSquared_eval double_eval)
  have w1: "weight (fl 28.421875) (fl 77.25) ?L1 = Some (7535434670632987 / 562949953421312)"
    unfolding weight_def d1 by (simp add: double_eval)
  have loop: "idw_loop (fl 28.421875) (fl 77.25) [?L0, ?L1] (0, 0) = Some ((3304473400646433 / 70368744177664), (5757012252688707 / 1099511627776))"
    unfolding idw_loop.simps w0 w1 option.case by (simp add: double_eval)
  have none: "find (nearby (fl 28.421875) (fl 77.25)) [?L0, ?L1] = None"
    using n0 n1 by simp
  have "estimateAQI [?L0, ?L1] (fl 28.421875) (fl 77.25) = map_option Math_round (js_div (5757012252688707 / 1099511627776) (3304473400646433 / 70368744177664))"
    using none loop by (rule estimateAQI_loop_result) simp
  also have "\<dots> = Some 111"
    by (simp add: double_eval)
  finally show ?thesis .
qed

lemma estimateAQI_single_half:
  "estimateAQI
     [\<lparr>location = ''Sector 56'', coordinates = (fl 28.4089, fl 77.0926), aqi = fl 175.5, pm25 = None\<rparr>]
     (fl 28.35) (fl 77.054) = Some 175"
proof -
  let ?L0 = "\<lparr>location = ''Sector 56'', coordinates = (fl 28.4089, fl 77.0926), aqi = fl 175.5, pm25 = None\<rparr>"
  have n0: "\<not> nearby (fl 28.35) (fl 77.054) ?L0"
    by (simp add: nearby_eval double_eval)
  have d0: "distSquared (fl 28.35) (fl 77.054) ?L0 = (1429383434500261 / 288230376151711744)"
    by (simp add: distSquared_eval double_eval)
  have w0: "weight (fl 28.35) (fl 77.054) ?L0 = Some (1773702660366179 / 8796093022208)"
    unfolding weight_def d0 by (simp add: double_eval)
  have loop: "idw_loop (fl 28.35) (fl 77.054) [?L0] (0, 0) = Some ((1773702660366179 / 8796093022208), (4863825263972881 / 137438953472))"
    unfolding idw_loop.simps w0 option.case by (simp add: double_eval)
  have none: "find (nearby (fl 28.35) (fl 77.054)) [?L0] = None"
    using n0 by simp
  have "estimateAQI [?L0] (fl 28.35) (fl 77.054) = map_option Math_round (js_div (4863825263972881 / 137438953472) (1773702660366179 / 8796093022208))"
    using none loop by (rule estimateAQI_loop_result) simp
  also have "\<dots> = Some 175"
    by (simp add: double_eval)
  finally show ?thesis .
qed

lemma estimateAQI_single_fraction:
  "estimateAQI
     [\<lparr>location = ''A'', coordinates = (fl 28.40, fl 77.00), aqi = fl 175.4, pm25 = None\<rparr>]
     (fl 28.41) (fl 77.01) = Some 175"
proof -
  let ?L0 = "\<lparr>location = ''A'', coordinates = (fl 28.40, fl 77.00), aqi = fl 175.4, pm25 = None\<rparr>"
  have n0: "\<not> nearby (fl 28.41) (fl 77.01) ?L0"
    by (simp add: nearby_eval double_eval)
  have d0: "distSquared (fl 28.41) (fl 77.01) ?L0 = (7378697629488749 / 36893488147419103232)"
    by (simp add: distSquared_eval double_eval)
  have w0: "weight (fl 28.41) (fl 77.01) ?L0 = Some (687194767359541 / 137438953472)"
    unfolding weight_def d0 by (simp add: double_eval)
  have loop: "idw_loop (fl 28.41) (fl 77.01) [?L0] (0, 0) = Some ((687194767359541 / 137438953472), (941671579647371 / 1073741824))"
    unfolding idw_loop.simps w0 option.case by (simp add: double_eval)
  have none: "find (nearby (fl 28.41) (fl 77.01)) [?L0] = None"
    using n0 by simp
  have "estimateAQI [?L0] (fl 28.41) (fl 77.01) = map_option Math_round (js_div (941671579647371 / 1073741824) (687194767359541 / 137438953472))"
    using none loop by (rule estimateAQI_loop_result) simp
  also have "\<dots> = Some 175"
    by (simp add: double_eval)
  finally show ?thesis .
qed

text \<open>
  Claim C1 says that the estimate is the rounded weighted mean. Read over the real
  numbers it fails where the exact mean is a tie: for P at (28.25, 77.265625), index
  142, and Q at (28.28125, 77.015625), index 35, neither within the tolerance box of
  (28.421875, 77.25), the exact weighted mean is 111.5 and rounds to 112, and the
  estimate is 111.
\<close>

theorem estimateAQI_interpolation_counterexample:
  "\<not> nearby (fl 28.421875) (fl 77.25)
       \<lparr>location = ''P'', coordinates = (fl 28.25, fl 77.265625), aqi = 142, pm25 = None\<rparr>
   \<and> \<not> nearby (fl 28.421875) (fl 77.25)
       \<lparr>location = ''Q'', coordinates = (fl 28.28125, fl 77.015625), aqi = 35, pm25 = None\<rparr>
   \<and> exact_idw
        [\<lparr>location = ''P'', coordinates = (fl 28.25, fl 77.265625), aqi = 142, pm25 = None\<rparr>,
         \<lparr>location = ''Q'', coordinates = (fl 28.28125, fl 77.015625), aqi = 35, pm25 = None\<rparr>]
        (fl 28.421875) (fl 77.25) = 112
   \<and> estimateAQI
        [\<lparr>location = ''P'', coordinates = (fl 28.25, fl 77.265625), aqi = 142, pm25 = None\<rparr>,
         \<lparr>location = ''Q'', coordinates = (fl 28.28125, fl 77.015625), aqi = 35, pm25 = None\<rparr>]
        (fl 28.421875) (fl 77.25) = Some 111"
proof -
  let ?P = "\<lparr>location = ''P'', coordinates = (fl 28.25, fl 77.265625), aqi = 142, pm25 = None\<rparr>"
  let ?Q = "\<lparr>location = ''Q'', coordinates = (fl 28.28125, fl 77.015625), aqi = 35, pm25 = None\<rparr>"
  have p: "\<not> nearby (fl 28.421875) (fl 77.25) ?P"
    by (simp add: nearby_eval double_eval)
  have q: "\<not> nearby (fl 28.421875) (fl 77.25) ?Q"
    by (simp add: nearby_eval double_eval)
  have lits: "fl 28.421875 = 28.421875" "fl 77.25 = 77.25" "fl 28.25 = 28.25"
    "fl 77.265625 = 77.265625" "fl 28.28125 = 28.28125" "fl 77.015625 = 77.015625"
    by (simp_all add: double_eval)
  have e: "exact_idw [?P, ?Q] (fl 28.421875) (fl 77.25) = 112"
    unfolding lits
    by (simp add: exact_idw_def exact_weight_def exact_squared_distance_def
        power2_eq_square round_def)
  from p q e estimateAQI_below_tie show ?thesis by simp
qed

text \<open>
  Claim C1, amended. When the list is not empty and no location lies within the tolerance box of
  the queried point, \<open>estimateAQI\<close> returns the weighted mean of the indices rounded to
  the nearest integer, each location weighing the reciprocal of its squared planar
  distance to the point (and 1 at distance 0): the loop with its two accumulators
  computes \<open>spec_idw\<close>, the formula with every operation rounded to a double and the
  sums taken in iteration order. For the two locations
  A (28.40, 77.00, index 100) and B (28.42, 77.02, index 200) and the point
  (28.41, 77.01) the estimate is 150.
\<close>

theorem estimateAQI_interpolation:
  "(\<forall>locs lat lng.
      locs \<noteq> [] \<longrightarrow> (\<forall>loc\<in>set locs. \<not> nearby lat lng loc) \<longrightarrow>
      estimateAQI locs lat lng = Some (spec_idw locs lat lng))
   \<and> estimateAQI
        [\<lparr>location = ''A'', coordinates = (fl 28.40, fl 77.00), aqi = 100, pm25 = None\<rparr>,
         \<lparr>location = ''B'', coordinates = (fl 28.42, fl 77.02), aqi = 200, pm25 = None\<rparr>]
        (fl 28.41) (fl 77.01) = Some 150"
proof (intro conjI allI impI)
  fix locs :: "Location list" and lat lng
  assume "locs \<noteq> []" and "\<forall>loc\<in>set locs. \<not> nearby lat lng loc"
  then show "estimateAQI locs lat lng = Some (spec_idw locs lat lng)"
    by (simp add: estimateAQI_no_nearby find_None_iff)
next
  show "estimateAQI
        [\<lparr>location = ''A'', coordinates = (fl 28.40, fl 77.00), aqi = 100, pm25 = None\<rparr>,
         \<lparr>location = ''B'', coordinates = (fl 28.42, fl 77.02), aqi = 200, pm25 = None\<rparr>]
        (fl 28.41) (fl 77.01) = Some 150"
    by (rule estimateAQI_equidistant)
qed

theorem estimateAQI_interpolation_witness:
  "[\<lparr>location = ''A'', coordinates = (fl 28.40, fl 77.00), aqi = 100, pm25 = None\<rparr>,
    \<lparr>location = ''B'', coordinates = (fl 28.42, fl 77.02), aqi = 200, pm25 = None\<rparr>] \<noteq> []
   \<and> \<not> nearby (fl 28.41) (fl 77.01) \<lparr>location = ''A'', coordinates = (fl 28.40, fl 77.00), aqi = 100, pm25 = None\<rparr>
   \<and> \<not> nearby (fl 28.41) (fl 77.01) \<lparr>location = ''B'', coordinates = (fl 28.42, fl 77.02), aqi = 200, pm25 = None\<rparr>
   \<and> spec_idw
        [\<lparr>location = ''A'', coordinates = (fl 28.40, fl 77.00), aqi = 100, pm25 = None\<rparr>,
         \<lparr>location = ''B'', coordinates = (fl 28.42, fl 77.02), aqi = 200, pm25 = None\<rparr>]
        (fl 28.41) (fl 77.01) = 150"
proof -
  let ?A = "\<lparr>location = ''A'', coordinates = (fl 28.40, fl 77.00), aqi = 100, pm25 = None\<rparr>"
  let ?B = "\<lparr>location = ''B'', coordinates = (fl 28.42, fl 77.02), aqi = 200, pm25 = None\<rparr>"
  have a: "\<not> nearby (fl 28.41) (fl 77.01) ?A"
    by (simp add: nearby_eval double_eval)
  have b: "\<not> nearby (fl 28.41) (fl 77.01) ?B"
    by (simp add: nearby_eval double_eval)
  from a b have far: "\<forall>loc\<in>set [?A, ?B]. \<not> nearby (fl 28.41) (fl 77.01) loc" by simp
  have "estimateAQI [?A, ?B] (fl 28.41) (fl 77.01)
      = Some (spec_idw [?A, ?B] (fl 28.41) (fl 77.01))"
    using estimateAQI_interpolation far by blast
  moreover have "estimateAQI [?A, ?B] (fl 28.41) (fl 77.01) = Some 150"
    using estimateAQI_interpolation by blast
  ultimately have "spec_idw [?A, ?B] (fl 28.41) (fl 77.01) = 150" by simp
  with a b show ?thesis by simp
qed

text \<open>
  Claim C2. When at least one location lies within the tolerance box of the queried
  point, \<open>estimateAQI\<close> returns the index of the first such location in the order of the
  list, as it is (no weighting, no rounding): the head of the locations within the box,
  which is the location at the least position that is within the box.
\<close>

theorem estimateAQI_first_nearby:
  assumes "\<exists>loc\<in>set locs. nearby lat lng loc"
  shows "estimateAQI locs lat lng = Some (aqi (hd (filter (nearby lat lng) locs)))
    \<and> (\<forall>i<length locs. nearby lat lng (locs ! i) \<and> (\<forall>j<i. \<not> nearby lat lng (locs ! j))
          \<longrightarrow> estimateAQI locs lat lng = Some (aqi (locs ! i)))"
proof (intro conjI allI impI)
  show "estimateAQI locs lat lng = Some (aqi (hd (filter (nearby lat lng) locs)))"
    using assms by (simp add: estimateAQI_nearby find_hd_filter)
next
  fix i
  assume "i < length locs"
    and "nearby lat lng (locs ! i) \<and> (\<forall>j<i. \<not> nearby lat lng (locs ! j))"
  then have "find (nearby lat lng) locs = Some (locs ! i)"
    by (simp add: find_first_index)
  then show "estimateAQI locs lat lng = Some (aqi (locs ! i))"
    by (rule estimateAQI_nearby)
qed

theorem estimateAQI_first_nearby_witness:
  "nearby (fl 28.401) (fl 77.001)
     \<lparr>location = ''A'', coordinates = (fl 28.40, fl 77.00), aqi = 100, pm25 = None\<rparr>
   \<and> nearby (fl 28.401) (fl 77.001)
       \<lparr>location = ''B'', coordinates = (fl 28.402, fl 77.002), aqi = 200, pm25 = None\<rparr>
   \<and> estimateAQI
        [\<lparr>location = ''A'', coordinates = (fl 28.40, fl 77.00), aqi = 100, pm25 = None\<rparr>,
         \<lparr>location = ''B'', coordinates = (fl 28.402, fl 77.002), aqi = 200, pm25 = None\<rparr>]
        (fl 28.401) (fl 77.001) = Some 100
   \<and> estimateAQI
        [\<lparr>location = ''B'', coordinates = (fl 28.402, fl 77.002), aqi = 200, pm25 = None\<rparr>,
         \<lparr>location = ''A'', coordinates = (fl 28.40, fl 77.00), aqi = 100, pm25 = None\<rparr>]
        (fl 28.401) (fl 77.001) = Some 200"
proof -
  let ?A = "\<lparr>location = ''A'', coordinates = (fl 28.40, fl 77.00), aqi = 100, pm25 = None\<rparr>"
  let ?B = "\<lparr>location = ''B'', coordinates = (fl 28.402, fl 77.002), aqi = 200, pm25 = None\<rparr>"
  have a: "nearby (fl 28.401) (fl 77.001) ?A"
    by (simp add: nearby_eval double_eval)
  have b: "nearby (fl 28.401) (fl 77.001) ?B"
    by (simp add: nearby_eval double_eval)
  have "\<exists>loc\<in>set [?A, ?B]. nearby (fl 28.401) (fl 77.001) loc" using a by simp
  from estimateAQI_first_nearby [OF this]
  have ab: "estimateAQI [?A, ?B] (fl 28.401) (fl 77.001) = Some 100" using a by simp
  have "\<exists>loc\<in>set [?B, ?A]. nearby (fl 28.401) (fl 77.001) loc" using a by simp
  from estimateAQI_first_nearby [OF this]
  have ba: "estimateAQI [?B, ?A] (fl 28.401) (fl 77.001) = Some 200" using b by simp
  from a b ab ba show ?thesis by simp
qed

text \<open>
  Claim C3 says that a queried point with exactly the coordinates of a location of the
  list gets that location's index. It fails when an earlier location of the list lies
  within the tolerance box of the point: with A at (28.40, 77.00), index 100, listed
  before B at (28.401, 77.001), index 200, the point (28.401, 77.001) gets 100.
\<close>

theorem estimateAQI_exact_coordinates_counterexample:
  "coordinates \<lparr>location = ''B'', coordinates = (fl 28.401, fl 77.001), aqi = 200, pm25 = None\<rparr>
     = (fl 28.401, fl 77.001)
   \<and> estimateAQI
        [\<lparr>location = ''A'', coordinates = (fl 28.40, fl 77.00), aqi = 100, pm25 = None\<rparr>,
         \<lparr>location = ''B'', coordinates = (fl 28.401, fl 77.001), aqi = 200, pm25 = None\<rparr>]
        (fl 28.401) (fl 77.001) = Some 100
   \<and> Some 100 \<noteq> Some (aqi \<lparr>location = ''B'', coordinates = (fl 28.401, fl 77.001), aqi = 200, pm25 = None\<rparr>)"
proof -
  let ?A = "\<lparr>location = ''A'', coordinates = (fl 28.40, fl 77.00), aqi = 100, pm25 = None\<rparr>"
  let ?B = "\<lparr>location = ''B'', coordinates = (fl 28.401, fl 77.001), aqi = 200, pm25 = None\<rparr>"
  have "nearby (fl 28.401) (fl 77.001) ?A"
    by (simp add: nearby_eval double_eval)
  then have "find (nearby (fl 28.401) (fl 77.001)) [?A, ?B] = Some ?A" by simp
  then have "estimateAQI [?A, ?B] (fl 28.401) (fl 77.001) = Some (aqi ?A)"
    by (rule estimateAQI_nearby)
  then show ?thesis by simp
qed

text \<open>
  Claim C3, amended. When the queried point has exactly the coordinates of the location
  at position \<open>i\<close>, the estimate is the index, as it is, of the first location of the
  list within the tolerance box of the point; it is the index of the location at \<open>i\<close>
  itself when no earlier location lies within the box.
\<close>

theorem estimateAQI_exact_coordinates:
  assumes "i < length locs" and "coordinates (locs ! i) = (lat, lng)"
  shows "estimateAQI locs lat lng = Some (aqi (hd (filter (nearby lat lng) locs)))
    \<and> ((\<forall>j<i. \<not> nearby lat lng (locs ! j)) \<longrightarrow>
          estimateAQI locs lat lng = Some (aqi (locs ! i)))"
proof (intro conjI impI)
  have here: "nearby lat lng (locs ! i)"
    using assms(2) by (rule nearby_same_coordinates)
  then have "\<exists>loc\<in>set locs. nearby lat lng loc"
    using assms(1) nth_mem by blast
  then show "estimateAQI locs lat lng = Some (aqi (hd (filter (nearby lat lng) locs)))"
    by (simp add: estimateAQI_nearby find_hd_filter)
  assume "\<forall>j<i. \<not> nearby lat lng (locs ! j)"
  with assms(1) here have "find (nearby lat lng) locs = Some (locs ! i)"
    by (simp add: find_first_index)
  then show "estimateAQI locs lat lng = Some (aqi (locs ! i))"
    by (rule estimateAQI_nearby)
qed

theorem estimateAQI_exact_coordinates_witness:
  "(1::nat) < length
        [\<lparr>location = ''A'', coordinates = (fl 28.40, fl 77.00), aqi = 100, pm25 = None\<rparr>,
         \<lparr>location = ''B'', coordinates = (fl 28.42, fl 77.02), aqi = 200, pm25 = None\<rparr>]
   \<and> \<not> nearby (fl 28.42) (fl 77.02)
         \<lparr>location = ''A'', coordinates = (fl 28.40, fl 77.00), aqi = 100, pm25 = None\<rparr>
   \<and> estimateAQI
        [\<lparr>location = ''A'', coordinates = (fl 28.40, fl 77.00), aqi = 100, pm25 = None\<rparr>,
         \<lparr>location = ''B'', coordinates = (fl 28.42, fl 77.02), aqi = 200, pm25 = None\<rparr>]
        (fl 28.42) (fl 77.02) = Some 200"
proof -
  let ?A = "\<lparr>location = ''A'', coordinates = (fl 28.40, fl 77.00), aqi = 100, pm25 = None\<rparr>"
  let ?B = "\<lparr>location = ''B'', coordinates = (fl 28.42, fl 77.02), aqi = 200, pm25 = None\<rparr>"
  have len: "(1::nat) < length [?A, ?B]" by simp
  have at: "coordinates ([?A, ?B] ! 1) = (fl 28.42, fl 77.02)" by simp
  have far: "\<not> nearby (fl 28.42) (fl 77.02) ?A"
    by (simp add: nearby_eval double_eval)
  then have "\<forall>j<(1::nat). \<not> nearby (fl 28.42) (fl 77.02) ([?A, ?B] ! j)" by simp
  with estimateAQI_exact_coordinates [OF len at]
  have "estimateAQI [?A, ?B] (fl 28.42) (fl 77.02) = Some (aqi ([?A, ?B] ! 1))" by blast
  with len far show ?thesis by simp
qed

text \<open>
  Claim C4 says that a list of one location gives that location's index at every point.
  It fails for an index that is not a whole number and a point outside the tolerance
  box, since the interpolated value is rounded: index 175.4 gives 175.
\<close>

theorem estimateAQI_single_counterexample:
  "estimateAQI
     [\<lparr>location = ''A'', coordinates = (fl 28.40, fl 77.00), aqi = fl 175.4, pm25 = None\<rparr>]
     (fl 28.41) (fl 77.01) = Some 175
   \<and> aqi \<lparr>location = ''A'', coordinates = (fl 28.40, fl 77.00), aqi = fl 175.4, pm25 = None\<rparr>
       \<noteq> 175"
proof -
  have "fl 175.4 \<noteq> 175" by (simp add: double_eval)
  with estimateAQI_single_fraction show ?thesis by simp
qed

text \<open>
  Claim C4, amended. For a list of one location \<open>estimateAQI\<close> always returns a value.
  Within the tolerance box of the location it is the location's index. Outside it is a
  whole number, the interpolated double rounded, and that double differs from the index
  by at most the rounding error of the doubles (a \<open>2\<^sup>5\<^sup>0\<close>-th of the index): the result is
  the index rounded to the nearest integer, except that an index within that error of
  a value halfway between two integers may go to either of them. So the result is the
  index itself whenever the index is a whole number of magnitude up to \<open>2\<^sup>4\<^sup>8\<close>.
\<close>

theorem estimateAQI_single:
  "(nearby lat lng loc \<longrightarrow> estimateAQI [loc] lat lng = Some (aqi loc))
   \<and> (\<not> nearby lat lng loc \<longrightarrow>
        (\<exists>q. estimateAQI [loc] lat lng = Some (Math_round q)
             \<and> \<bar>q - aqi loc\<bar> \<le> \<bar>aqi loc\<bar> / 2 ^ 50))
   \<and> (aqi loc \<in> \<int> \<and> \<bar>aqi loc\<bar> \<le> 2 ^ 48 \<longrightarrow> estimateAQI [loc] lat lng = Some (aqi loc))"
proof -
  define w where "w = spec_weight lat lng loc"
  define q where "q = fl (js_add 0 (js_mul (aqi loc) w) / js_add 0 w)"
  have w: "0 < w" by (simp add: w_def spec_weight_pos)
  have inside: "estimateAQI [loc] lat lng = Some (aqi loc)" if "nearby lat lng loc"
    using that by (simp add: estimateAQI_def)
  have outside: "estimateAQI [loc] lat lng = Some (Math_round q)" if "\<not> nearby lat lng loc"
  proof -
    have "js_mul w (aqi loc) = js_mul (aqi loc) w" by (simp add: js_mul_def mult.commute)
    moreover have "estimateAQI [loc] lat lng = Some (spec_idw [loc] lat lng)"
      using that by (simp add: estimateAQI_no_nearby)
    ultimately show ?thesis by (simp add: spec_idw_def spec_sum_def q_def w_def)
  qed
  have close: "\<bar>q - aqi loc\<bar> \<le> \<bar>aqi loc\<bar> / 2 ^ 50"
    unfolding q_def using w by (rule single_location_error)
  have whole: "estimateAQI [loc] lat lng = Some (aqi loc)"
    if "aqi loc \<in> \<int> \<and> \<bar>aqi loc\<bar> \<le> 2 ^ 48"
  proof (cases "nearby lat lng loc")
    case True
    then show ?thesis by (rule inside)
  next
    case False
    from that obtain n :: int where n: "aqi loc = of_int n" by (auto elim: Ints_cases)
    from that have "\<bar>aqi loc\<bar> / 2 ^ 50 \<le> 1 / 4" by (simp add: field_simps)
    with close have "\<bar>q - of_int n\<bar> \<le> 1 / 4" by (simp add: n)
    then have "round q = n" by (intro round_unique) linarith+
    with outside [OF False] show ?thesis by (simp add: Math_round_def n)
  qed
  from inside outside close whole show ?thesis by blast
qed

theorem estimateAQI_single_witness:
  "(175::real) \<in> \<int> \<and> \<bar>175::real\<bar> \<le> 2 ^ 48
   \<and> \<not> nearby (fl 28.41) (fl 77.01)
         \<lparr>location = ''Sector 56'', coordinates = (fl 28.4089, fl 77.0926), aqi = 175, pm25 = None\<rparr>
   \<and> estimateAQI
        [\<lparr>location = ''Sector 56'', coordinates = (fl 28.4089, fl 77.0926), aqi = 175, pm25 = None\<rparr>]
        (fl 28.41) (fl 77.01) = Some 175
   \<and> nearby (fl 28.41) (fl 77.09)
         \<lparr>location = ''Sector 56'', coordinates = (fl 28.4089, fl 77.0926), aqi = fl 175.4, pm25 = None\<rparr>
   \<and> estimateAQI
        [\<lparr>location = ''Sector 56'', coordinates = (fl 28.4089, fl 77.0926), aqi = fl 175.4, pm25 = None\<rparr>]
        (fl 28.41) (fl 77.09) = Some (fl 175.4)"
proof -
  let ?S = "\<lparr>location = ''Sector 56'', coordinates = (fl 28.4089, fl 77.0926), aqi = 175, pm25 = None\<rparr>"
  let ?T = "\<lparr>location = ''Sector 56'', coordinates = (fl 28.4089, fl 77.0926), aqi = fl 175.4, pm25 = None\<rparr>"
  have int: "aqi ?S \<in> \<int> \<and> \<bar>aqi ?S\<bar> \<le> 2 ^ 48" by simp
  have far: "\<not> nearby (fl 28.41) (fl 77.01) ?S"
    by (simp add: nearby_eval double_eval)
  have near: "nearby (fl 28.41) (fl 77.09) ?T"
    by (simp add: nearby_eval double_eval)
  from estimateAQI_single [of "fl 28.41" "fl 77.01" ?S] int
  have s: "estimateAQI [?S] (fl 28.41) (fl 77.01) = Some (aqi ?S)" by blast
  from estimateAQI_single [of "fl 28.41" "fl 77.09" ?T] near
  have t: "estimateAQI [?T] (fl 28.41) (fl 77.09) = Some (aqi ?T)" by blast
  from far near s t show ?thesis by simp
qed

text \<open>
  Claim C5. \<open>estimateAQI\<close> returns a value for every list and point and no division in
  it has a zero divisor (the result is never \<open>None\<close>): the empty list gives 0; no weight
  is computed by a division by zero; a location at exactly the queried point has squared
  distance 0 and weight 1; and the sum of weights that divides at the end is not 0 for a
  list that is not empty.
\<close>

theorem estimateAQI_total:
  "estimateAQI locs lat lng \<noteq> None
   \<and> estimateAQI [] lat lng = Some 0
   \<and> weight lat lng loc \<noteq> None
   \<and> (coordinates loc = (lat, lng) \<longrightarrow>
        distSquared lat lng loc = 0 \<and> weight lat lng loc = Some 1)
   \<and> (\<forall>weightSum aqiSum. idw_loop lat lng locs (0, 0) = Some (weightSum, aqiSum) \<longrightarrow>
        locs \<noteq> [] \<longrightarrow> weightSum \<noteq> 0)"
proof (intro conjI allI impI)
  show "estimateAQI locs lat lng \<noteq> None" by (rule estimateAQI_defined)
  show "estimateAQI [] lat lng = Some 0" by (simp add: estimateAQI_def)
  show "weight lat lng loc \<noteq> None" by (simp add: weight_spec)
next
  assume "coordinates loc = (lat, lng)"
  then show "distSquared lat lng loc = 0"
    by (simp add: distSquared_def js_sub_def js_add_def Math_pow_2_def fl_zero)
  then show "weight lat lng loc = Some 1" by (simp add: weight_def)
next
  fix weightSum aqiSum
  assume "idw_loop lat lng locs (0, 0) = Some (weightSum, aqiSum)" and "locs \<noteq> []"
  then show "weightSum \<noteq> 0"
    using sum_spec_weight_pos [of locs lat lng] by (simp add: idw_loop_sums spec_sum_def)
qed

theorem estimateAQI_total_witness:
  "coordinates \<lparr>location = ''Sector 56'', coordinates = (fl 28.4089, fl 77.0926), aqi = 175, pm25 = None\<rparr>
     = (fl 28.4089, fl 77.0926)
   \<and> weight (fl 28.4089) (fl 77.0926)
       \<lparr>location = ''Sector 56'', coordinates = (fl 28.4089, fl 77.0926), aqi = 175, pm25 = None\<rparr>
     = Some 1
   \<and> idw_loop (fl 28.41) (fl 77.01)
       [\<lparr>location = ''Sector 56'', coordinates = (fl 28.4089, fl 77.0926), aqi = 175, pm25 = None\<rparr>]
       (0, 0)
       \<noteq> Some (0, 0)
   \<and> js_div 1 0 = None"
proof -
  let ?S = "\<lparr>location = ''Sector 56'', coordinates = (fl 28.4089, fl 77.0926), aqi = 175, pm25 = None\<rparr>"
  have c: "coordinates ?S = (fl 28.4089, fl 77.0926)" by simp
  from estimateAQI_total [of "[?S]" "fl 28.4089" "fl 77.0926" ?S] c
  have w: "weight (fl 28.4089) (fl 77.0926) ?S = Some 1" by blast
  obtain ws qs where l: "idw_loop (fl 28.41) (fl 77.01) [?S] (0, 0) = Some (ws, qs)"
    by (simp add: weight_spec)
  with estimateAQI_total [of "[?S]" "fl 28.41" "fl 77.01" ?S] have "ws \<noteq> 0" by blast
  with l have "idw_loop (fl 28.41) (fl 77.01) [?S] (0, 0) \<noteq> Some (0, 0)" by auto
  with c w show ?thesis by (simp add: js_div_def)
qed

section \<open>Properties of the classification functions\<close>

text \<open>
  Claim C9. For every index the three classification functions, \<open>getAQICategory\<close> of
  the map, the label of \<open>getAQILevel\<close> of the gauge and \<open>getAQILabel\<close> of the forecast
  page, return the category that the table of the specification gives.
\<close>

theorem classification_agrees:
  "getAQICategory a = spec_category a
   \<and> label (getAQILevel a) = spec_category a
   \<and> getAQILabel a = spec_category a"
  by (simp add: getAQICategory_def getAQILevel_def getAQILabel_def spec_category_def
      spec_table_def)

section \<open>Properties of the refresh scheduler\<close>

lemma step_countdown_bounds:
  assumes "step s e = Some s'" and "1 \<le> countdown s \<and> countdown s \<le> 300"
  shows "1 \<le> countdown s' \<and> countdown s' \<le> 300"
  using assms
  by (cases e)
     (auto simp: countdownTimer_def toggleAutoRefresh_def getMapData_start_def
        getMapData_resolved_def getMapData_rejected_def getMapData_finally_def
        split: if_splits)

lemma reachable_countdown_bounds:
  "reachable s \<Longrightarrow> 1 \<le> countdown s \<and> countdown s \<le> 300"
proof (induction rule: reachable.induct)
  case (mounted initialLoading)
  show ?case by (simp add: mount_def initialState_def getMapData_start_def)
next
  case (stepped s e s')
  then show ?case using step_countdown_bounds by blast
qed

lemma step_countdown_cases:
  assumes "step s e = Some s'" and "countdown s \<le> 300"
  shows "countdown s \<le> countdown s'
    \<or> (e = Tick \<and> autoRefreshEnabled s \<and> countdown s' = countdown s - 1)"
  using assms
  by (cases e)
     (auto simp: countdownTimer_def toggleAutoRefresh_def getMapData_start_def
        getMapData_resolved_def getMapData_rejected_def getMapData_finally_def
        split: if_splits)

lemma run_append:
  "run s (es @ fs) = (case run s es of None \<Rightarrow> None | Some s' \<Rightarrow> run s' fs)"
  by (induction es arbitrary: s) (auto split: option.splits)

lemma run_reachable: "reachable s \<Longrightarrow> run s es = Some s' \<Longrightarrow> reachable s'"
proof (induction es arbitrary: s)
  case Nil
  then show ?case by simp
next
  case (Cons e es)
  then obtain s1 where "step s e = Some s1" and "run s1 es = Some s'"
    by (auto split: option.splits)
  with Cons show ?case using reachable.stepped by blast
qed

lemma run_ticks:
  "autoRefreshEnabled s \<Longrightarrow> int n < countdown s \<Longrightarrow>
   run s (replicate n Tick) = Some (s\<lparr>countdown := countdown s - int n\<rparr>)"
proof (induction n arbitrary: s)
  case 0
  then show ?case by simp
next
  case (Suc n)
  then show ?case by (simp add: countdownTimer_def)
qed

text \<open>
  Claim C6 says that the countdown never decrements while a fetch is in flight. Right
  after mounting the first fetch is in flight (\<open>isRefreshing\<close> holds and one promise is
  outstanding), and a tick of the interval takes the countdown from 300 to 299.
\<close>

theorem tick_during_fetch_counterexample:
  "reachable (mount (initialState False))
   \<and> isRefreshing (mount (initialState False))
   \<and> inFlight (mount (initialState False)) = 1
   \<and> countdown (mount (initialState False)) = 300
   \<and> map_option countdown (step (mount (initialState False)) Tick) = Some 299"
proof -
  have "reachable (mount (initialState False))" by (rule reachable.mounted)
  then show ?thesis
    by (simp add: mount_def initialState_def getMapData_start_def countdownTimer_def)
qed

text \<open>
  Claim C6, amended. In every reachable state a step that lowers the countdown is a tick
  of the interval with auto-refresh enabled, and it lowers the countdown by exactly 1.
  With auto-refresh disabled there is no tick. With auto-refresh enabled and the
  countdown above 1 a tick decrements it, whether or not a fetch is in flight.
\<close>

theorem countdown_decrements:
  "(reachable s \<and> step s e = Some s' \<and> countdown s' < countdown s \<longrightarrow>
      e = Tick \<and> autoRefreshEnabled s \<and> countdown s' = countdown s - 1)
   \<and> (\<not> autoRefreshEnabled s \<longrightarrow> step s Tick = None)
   \<and> (autoRefreshEnabled s \<and> 1 < countdown s \<longrightarrow>
        step s Tick = Some (s\<lparr>countdown := countdown s - 1\<rparr>))"
proof -
  have only_tick: "e = Tick \<and> autoRefreshEnabled s \<and> countdown s' = countdown s - 1"
    if a: "reachable s \<and> step s e = Some s' \<and> countdown s' < countdown s"
  proof -
    from a have "countdown s \<le> 300" using reachable_countdown_bounds by blast
    with a step_countdown_cases [of s e s'] show ?thesis by linarith
  qed
  have disabled: "step s Tick = None" if "\<not> autoRefreshEnabled s"
    using that by simp
  have enabled: "step s Tick = Some (s\<lparr>countdown := countdown s - 1\<rparr>)"
    if "autoRefreshEnabled s \<and> 1 < countdown s"
    using that by (simp add: countdownTimer_def)
  from only_tick disabled enabled show ?thesis by blast
qed

theorem countdown_decrements_witness:
  "reachable (mount (initialState False))
   \<and> step (mount (initialState False)) Tick
       = Some ((mount (initialState False))\<lparr>countdown := 299\<rparr>)
   \<and> isRefreshing (mount (initialState False))
   \<and> autoRefreshEnabled (mount (initialState False))
   \<and> step ((mount (initialState False))\<lparr>autoRefreshEnabled := False\<rparr>) Tick = None"
proof -
  let ?s = "mount (initialState False)"
  have r: "reachable ?s" by (rule reachable.mounted)
  have f: "autoRefreshEnabled ?s \<and> 1 < countdown ?s" and c: "countdown ?s = 300"
    and i: "isRefreshing ?s"
    by (simp_all add: mount_def initialState_def getMapData_start_def)
  from countdown_decrements [of ?s Tick "?s\<lparr>countdown := 299\<rparr>"] f c
  have t: "step ?s Tick = Some (?s\<lparr>countdown := 299\<rparr>)" by simp
  have "countdown (?s\<lparr>countdown := 299\<rparr>) < countdown ?s" using c by simp
  with countdown_decrements [of ?s Tick "?s\<lparr>countdown := 299\<rparr>"] r t
  have en: "autoRefreshEnabled ?s" by blast
  have "\<not> autoRefreshEnabled (?s\<lparr>autoRefreshEnabled := False\<rparr>)" by simp
  with countdown_decrements [of "?s\<lparr>autoRefreshEnabled := False\<rparr>"]
  have "step (?s\<lparr>autoRefreshEnabled := False\<rparr>) Tick = None" by blast
  with r t i en show ?thesis by simp
qed

text \<open>
  Claim C7 says that re-enabling auto-refresh restarts the countdown at 300. After the
  first fetch and one tick the countdown is 299; disabling keeps 299 and re-enabling
  resumes from 299.
\<close>

theorem toggle_resets_countdown_counterexample:
  "map_option (\<lambda>s. (autoRefreshEnabled s, countdown s))
     (run (mount (initialState False)) [FetchResolved [] ''t'', Tick, ToggleAutoRefresh])
     = Some (False, 299)
   \<and> map_option (\<lambda>s. (autoRefreshEnabled s, countdown s))
       (run (mount (initialState False))
          [FetchResolved [] ''t'', Tick, ToggleAutoRefresh, ToggleAutoRefresh])
     = Some (True, 299)"
  by (simp add: mount_def initialState_def getMapData_start_def countdownTimer_def
      getMapData_resolved_def getMapData_finally_def toggleAutoRefresh_def)

text \<open>
  While auto-refresh is disabled, a step that is not the toggle keeps it disabled, is
  not a tick, and sets the countdown to 300 when it is a promise settling and leaves it
  alone otherwise; so does a sequence of such steps.
\<close>

lemma step_paused:
  assumes "\<not> autoRefreshEnabled s" and "step s e = Some s'" and "e \<noteq> ToggleAutoRefresh"
  shows "\<not> autoRefreshEnabled s' \<and> e \<noteq> Tick
    \<and> countdown s' = (if settles e then 300 else countdown s)"
  using assms
  by (cases e)
     (auto simp: getMapData_start_def getMapData_resolved_def getMapData_rejected_def
        getMapData_finally_def split: if_splits)

lemma run_paused:
  assumes "\<not> autoRefreshEnabled s" and "ToggleAutoRefresh \<notin> set es" and "run s es = Some s'"
  shows "\<not> autoRefreshEnabled s'
    \<and> countdown s' = (if list_ex settles es then 300 else countdown s)"
  using assms
proof (induction es arbitrary: s)
  case Nil
  then show ?case by simp
next
  case (Cons e es)
  from Cons.prems obtain s1 where s1: "step s e = Some s1" and rest: "run s1 es = Some s'"
    by (auto split: option.splits)
  from Cons.prems have e: "e \<noteq> ToggleAutoRefresh" and es: "ToggleAutoRefresh \<notin> set es"
    by auto
  from step_paused [OF Cons.prems(1) s1 e]
  have p: "\<not> autoRefreshEnabled s1"
    and c: "countdown s1 = (if settles e then 300 else countdown s)" by simp_all
  from Cons.IH [OF p es rest] c show ?case by simp
qed

text \<open>
  A fetch started by the timer, one tick later: first fetch done, 300 ticks (the last of
  them starts the fetch and restarts the countdown), one more tick.
\<close>

lemma timer_fetch_state:
  "run (mount (initialState False))
     ([FetchResolved [] ''t''] @ replicate 299 Tick @ [Tick, Tick])
   = Some \<lparr>locations = [], loading = False, error = None, lastUpdated = ''t'',
        isRefreshing = True, autoRefreshEnabled = True, countdown = 299, inFlight = 1\<rparr>"
proof -
  let ?s1 = "\<lparr>locations = [], loading = False, error = None, lastUpdated = ''t'',
        isRefreshing = False, autoRefreshEnabled = True, countdown = 300, inFlight = 0\<rparr>"
  have a: "run (mount (initialState False)) [FetchResolved [] ''t''] = Some ?s1"
    by (simp add: mount_def initialState_def getMapData_start_def getMapData_resolved_def
        getMapData_finally_def)
  have b: "run ?s1 (replicate 299 Tick) = Some (?s1\<lparr>countdown := countdown ?s1 - int 299\<rparr>)"
    by (rule run_ticks) simp_all
  have c: "run (?s1\<lparr>countdown := countdown ?s1 - int 299\<rparr>) [Tick, Tick]
    = Some \<lparr>locations = [], loading = False, error = None, lastUpdated = ''t'',
        isRefreshing = True, autoRefreshEnabled = True, countdown = 299, inFlight = 1\<rparr>"
    by (simp add: getMapData_start_def countdownTimer_def)
  show ?thesis
    unfolding run_append a b option.case c ..
qed

text \<open>
  Claim C7, amended. While auto-refresh is disabled no tick happens and no step of a
  reachable state lowers the countdown: a step leaves it as it is, or sets it to 300
  when it is a fetch settling. The toggle flips the flag and leaves the countdown as it
  is; disabling and re-enabling at once gives back the very same state. So after
  disabling, any events but the toggle, and re-enabling, the countdown resumes from the
  value at which it was paused, or from 300 when a fetch settled in between.
\<close>

theorem toggle_keeps_countdown:
  "(reachable s \<and> \<not> autoRefreshEnabled s \<and> step s e = Some s' \<longrightarrow>
      e \<noteq> Tick \<and> countdown s \<le> countdown s'
      \<and> (e \<noteq> ToggleAutoRefresh \<longrightarrow>
           countdown s' = (if settles e then 300 else countdown s)))
   \<and> (step s ToggleAutoRefresh = Some s' \<longrightarrow>
        countdown s' = countdown s \<and> autoRefreshEnabled s' = (\<not> autoRefreshEnabled s))
   \<and> (\<not> loading s \<longrightarrow> run s [ToggleAutoRefresh, ToggleAutoRefresh] = Some s)
   \<and> (autoRefreshEnabled s \<and> ToggleAutoRefresh \<notin> set es
        \<and> run s (ToggleAutoRefresh # es @ [ToggleAutoRefresh]) = Some s' \<longrightarrow>
        autoRefreshEnabled s'
        \<and> countdown s' = (if list_ex settles es then 300 else countdown s))"
proof -
  have paused: "e \<noteq> Tick \<and> countdown s \<le> countdown s'
      \<and> (e \<noteq> ToggleAutoRefresh \<longrightarrow> countdown s' = (if settles e then 300 else countdown s))"
    if a: "reachable s \<and> \<not> autoRefreshEnabled s \<and> step s e = Some s'"
  proof -
    from a have "countdown s \<le> 300" using reachable_countdown_bounds by blast
    with a step_countdown_cases [of s e s']
    have "e \<noteq> Tick \<and> countdown s \<le> countdown s'" by auto
    moreover have "countdown s' = (if settles e then 300 else countdown s)"
      if "e \<noteq> ToggleAutoRefresh"
      using a that step_paused [of s e s'] by blast
    ultimately show ?thesis by blast
  qed
  have toggle: "countdown s' = countdown s \<and> autoRefreshEnabled s' = (\<not> autoRefreshEnabled s)"
    if "step s ToggleAutoRefresh = Some s'"
    using that by (auto simp: toggleAutoRefresh_def split: if_splits)
  have twice: "run s [ToggleAutoRefresh, ToggleAutoRefresh] = Some s" if "\<not> loading s"
    using that by (simp add: toggleAutoRefresh_def)
  have resume: "autoRefreshEnabled s'
      \<and> countdown s' = (if list_ex settles es then 300 else countdown s)"
    if a: "autoRefreshEnabled s \<and> ToggleAutoRefresh \<notin> set es
        \<and> run s (ToggleAutoRefresh # es @ [ToggleAutoRefresh]) = Some s'"
  proof -
    from a obtain s1 where s1: "step s ToggleAutoRefresh = Some s1"
      and r1: "run s1 (es @ [ToggleAutoRefresh]) = Some s'"
      by (auto split: option.splits)
    from r1 obtain s2 where r2: "run s1 es = Some s2"
      and s2: "run s2 [ToggleAutoRefresh] = Some s'"
      by (auto simp: run_append split: option.splits)
    from s1 a have off: "\<not> autoRefreshEnabled s1" and c1: "countdown s1 = countdown s"
      by (auto simp: toggleAutoRefresh_def split: if_splits)
    from run_paused [OF off _ r2] a
    have off2: "\<not> autoRefreshEnabled s2"
      and c2: "countdown s2 = (if list_ex settles es then 300 else countdown s1)"
      by simp_all
    from s2 have "s' = toggleAutoRefresh s2" by (auto split: if_splits option.splits)
    with off2 c2 c1 show ?thesis by (simp add: toggleAutoRefresh_def)
  qed
  from paused toggle twice resume show ?thesis by blast
qed

theorem toggle_keeps_countdown_witness:
  "reachable \<lparr>locations = [], loading = False, error = None, lastUpdated = ''t'',
        isRefreshing = True, autoRefreshEnabled = True, countdown = 299, inFlight = 1\<rparr>
   \<and> map_option (\<lambda>s. (autoRefreshEnabled s, countdown s))
       (run \<lparr>locations = [], loading = False, error = None, lastUpdated = ''t'',
          isRefreshing = True, autoRefreshEnabled = True, countdown = 299, inFlight = 1\<rparr>
        [ToggleAutoRefresh, ToggleAutoRefresh])
     = Some (True, 299)
   \<and> map_option (\<lambda>s. (autoRefreshEnabled s, countdown s))
       (run \<lparr>locations = [], loading = False, error = None, lastUpdated = ''t'',
          isRefreshing = True, autoRefreshEnabled = True, countdown = 299, inFlight = 1\<rparr>
        [ToggleAutoRefresh, FetchResolved [] ''u'', ToggleAutoRefresh])
     = Some (True, 300)
   \<and> step \<lparr>locations = [], loading = False, error = None, lastUpdated = ''t'',
          isRefreshing = True, autoRefreshEnabled = False, countdown = 299, inFlight = 1\<rparr>
        Tick = None"
proof -
  let ?on = "\<lparr>locations = [], loading = False, error = None, lastUpdated = ''t'',
        isRefreshing = True, autoRefreshEnabled = True, countdown = 299, inFlight = 1\<rparr>"
  let ?off = "\<lparr>locations = [], loading = False, error = None, lastUpdated = ''t'',
        isRefreshing = True, autoRefreshEnabled = False, countdown = 299, inFlight = 1\<rparr>"
  let ?fin = "\<lparr>locations = [], loading = False, error = None, lastUpdated = ''u'',
        isRefreshing = False, autoRefreshEnabled = True, countdown = 300, inFlight = 0\<rparr>"
  have "reachable (mount (initialState False))" by (rule reachable.mounted)
  then have r: "reachable ?on" using timer_fetch_state by (rule run_reachable)
  have st: "step ?on ToggleAutoRefresh = Some ?off"
    by (simp add: toggleAutoRefresh_def)
  have "reachable ?off" using r st by (rule reachable.stepped)
  moreover have "\<not> autoRefreshEnabled ?off" by simp
  moreover have "step ?off ToggleAutoRefresh = Some ?on"
    by (simp add: toggleAutoRefresh_def)
  ultimately have "ToggleAutoRefresh \<noteq> Tick \<and> countdown ?off \<le> countdown ?on"
    using toggle_keeps_countdown [of ?off ToggleAutoRefresh ?on "[]"] by blast
  have plain: "run ?on [ToggleAutoRefresh, ToggleAutoRefresh] = Some ?on"
    using toggle_keeps_countdown [of ?on ToggleAutoRefresh ?off "[]"] by simp
  have tr: "run ?on (ToggleAutoRefresh # [FetchResolved [] ''u''] @ [ToggleAutoRefresh])
      = Some ?fin"
    by (simp add: toggleAutoRefresh_def getMapData_resolved_def getMapData_finally_def)
  have "autoRefreshEnabled ?on \<and> ToggleAutoRefresh \<notin> set [FetchResolved [] ''u'']" by simp
  with tr toggle_keeps_countdown [of ?on ToggleAutoRefresh ?fin "[FetchResolved [] ''u'']"]
  have "autoRefreshEnabled ?fin
      \<and> countdown ?fin = (if list_ex settles [FetchResolved [] ''u''] then 300 else countdown ?on)"
    by blast
  then have "countdown ?fin = 300" by simp
  with r plain tr show ?thesis by simp
qed

text \<open>
  Claim C8. When a fetch fails, the list of locations becomes the fallback list of four
  (Sector 56: 175, DLF Cyber City: 160, Golf Course Road: 155, MG Road: 168), the error
  text is set, the "last updated" text ends in "(fallback data)", the countdown is 300
  and \<open>isRefreshing\<close> is cleared. The estimator then has a list that is not empty,
  returns a value at every point, and returns 175 at the coordinates of Sector 56.
\<close>

theorem failed_refresh_fallback:
  assumes "step s (FetchRejected now) = Some s'"
  shows "locations s' = fallbackLocations
    \<and> map (\<lambda>loc. (location loc, aqi loc)) (locations s')
        = [(''Sector 56'', 175), (''DLF Cyber City'', 160), (''Golf Course Road'', 155),
           (''MG Road'', 168)]
    \<and> error s' = Some ''Failed to load map data''
    \<and> lastUpdated s' = now @ '' (fallback data)''
    \<and> countdown s' = 300
    \<and> \<not> isRefreshing s'
    \<and> locations s' \<noteq> []
    \<and> (\<forall>lat lng. estimateAQI (locations s') lat lng \<noteq> None)
    \<and> estimateAQI (locations s') (fl 28.4089) (fl 77.0926) = Some 175"
proof -
  from assms have s': "s' = getMapData_rejected now s"
    by (simp split: if_splits)
  have locs: "locations s' = fallbackLocations"
    by (simp add: s' getMapData_rejected_def getMapData_finally_def)
  have names: "map (\<lambda>loc. (location loc, aqi loc)) fallbackLocations
        = [(''Sector 56'', 175), (''DLF Cyber City'', 160), (''Golf Course Road'', 155),
           (''MG Road'', 168)]"
    by (simp add: fallbackLocations_def)
  have flags: "error s' = Some ''Failed to load map data''
      \<and> lastUpdated s' = now @ '' (fallback data)''
      \<and> countdown s' = 300 \<and> \<not> isRefreshing s'"
    by (simp add: s' getMapData_rejected_def getMapData_finally_def)
  have nonempty: "fallbackLocations \<noteq> []"
    by (simp add: fallbackLocations_def)
  have sector56: "estimateAQI fallbackLocations (fl 28.4089) (fl 77.0926) = Some 175"
  proof -
    have "find (nearby (fl 28.4089) (fl 77.0926)) fallbackLocations
        = Some (hd fallbackLocations)"
      by (simp add: fallbackLocations_def nearby_same_coordinates)
    then have "estimateAQI fallbackLocations (fl 28.4089) (fl 77.0926)
        = Some (aqi (hd fallbackLocations))"
      by (rule estimateAQI_nearby)
    then show ?thesis by (simp add: fallbackLocations_def)
  qed
  from locs names flags nonempty sector56 estimateAQI_defined show ?thesis
    by simp
qed

theorem failed_refresh_fallback_witness:
  "step (mount (initialState False)) (FetchRejected ''11/2/2026, 9:00:00 AM'')
     = Some \<lparr>locations = fallbackLocations, loading = False,
          error = Some ''Failed to load map data'',
          lastUpdated = ''11/2/2026, 9:00:00 AM (fallback data)'',
          isRefreshing = False, autoRefreshEnabled = True, countdown = 300, inFlight = 0\<rparr>
   \<and> estimateAQI fallbackLocations (fl 28.4089) (fl 77.0926) = Some 175"
proof -
  let ?s' = "\<lparr>locations = fallbackLocations, loading = False,
          error = Some ''Failed to load map data'',
          lastUpdated = ''11/2/2026, 9:00:00 AM (fallback data)'',
          isRefreshing = False, autoRefreshEnabled = True, countdown = 300, inFlight = 0\<rparr>"
  have st: "step (mount (initialState False)) (FetchRejected ''11/2/2026, 9:00:00 AM'') = Some ?s'"
    by (simp add: mount_def initialState_def getMapData_start_def getMapData_rejected_def
        getMapData_finally_def)
  from failed_refresh_fallback [OF st]
  have "estimateAQI fallbackLocations (fl 28.4089) (fl 77.0926) = Some 175" by simp
  with st show ?thesis by simp
qed

text \<open>
  Claim C10 says that a click on "Refresh Now" can start a second fetch in a state where
  \<open>isRefreshing\<close> holds. The button is rendered with \<open>disabled={isRefreshing}\<close>: in no
  such state is the click possible.
\<close>

theorem refresh_now_during_fetch_counterexample:
  "\<not> (\<exists>s. isRefreshing s \<and> step s RefreshNow \<noteq> None)"
  by simp

text \<open>
  A manual refresh shortly before the countdown runs out: first fetch done, 298 ticks,
  a click on "Refresh Now", one more tick. The fetch of the click is in flight and the
  countdown is at 1.
\<close>

lemma low_countdown_state:
  "run (mount (initialState False))
     ([FetchResolved [] ''t''] @ replicate 298 Tick @ [RefreshNow, Tick])
   = Some \<lparr>locations = [], loading = False, error = None, lastUpdated = ''t'',
        isRefreshing = True, autoRefreshEnabled = True, countdown = 1, inFlight = 1\<rparr>"
proof -
  let ?s1 = "\<lparr>locations = [], loading = False, error = None, lastUpdated = ''t'',
        isRefreshing = False, autoRefreshEnabled = True, countdown = 300, inFlight = 0\<rparr>"
  have a: "run (mount (initialState False)) [FetchResolved [] ''t''] = Some ?s1"
    by (simp add: mount_def initialState_def getMapData_start_def getMapData_resolved_def
        getMapData_finally_def)
  have b: "run ?s1 (replicate 298 Tick) = Some (?s1\<lparr>countdown := countdown ?s1 - int 298\<rparr>)"
    by (rule run_ticks) simp_all
  have c: "run (?s1\<lparr>countdown := countdown ?s1 - int 298\<rparr>) [RefreshNow, Tick]
    = Some \<lparr>locations = [], loading = False, error = None, lastUpdated = ''t'',
        isRefreshing = True, autoRefreshEnabled = True, countdown = 1, inFlight = 1\<rparr>"
    by (simp add: getMapData_start_def countdownTimer_def)
  show ?thesis
    unfolding run_append a b option.case c ..
qed

text \<open>
  The timer then starts a second fetch; when one of the two settles, \<open>isRefreshing\<close> is
  cleared although the other is still in flight.
\<close>

lemma cleared_flag_state:
  "run \<lparr>locations = [], loading = False, error = None, lastUpdated = ''t'',
        isRefreshing = True, autoRefreshEnabled = True, countdown = 1, inFlight = 1\<rparr>
     [Tick, FetchResolved [] ''u'']
   = Some \<lparr>locations = [], loading = False, error = None, lastUpdated = ''u'',
        isRefreshing = False, autoRefreshEnabled = True, countdown = 300, inFlight = 1\<rparr>"
  by (simp add: countdownTimer_def getMapData_start_def getMapData_resolved_def
      getMapData_finally_def)

text \<open>
  How a state with the flag cleared and a fetch still in flight comes about: in every
  run that starts with the flag set, some promise settled while at least two fetches
  were in flight.
\<close>

lemma flag_cleared_history:
  assumes "run s0 es = Some s" and "isRefreshing s0"
    and "\<not> isRefreshing s" and "0 < inFlight s"
  shows "\<exists>es1 e es2 s1. es = es1 @ e # es2 \<and> run s0 es1 = Some s1 \<and> settles e
    \<and> 2 \<le> inFlight s1"
  using assms
proof (induction es arbitrary: s rule: rev_induct)
  case Nil
  then show ?case by simp
next
  case (snoc e es)
  from snoc.prems(1) obtain sp where sp: "run s0 es = Some sp" and st: "step sp e = Some s"
    by (auto simp: run_append split: option.splits)
  show ?case
  proof (cases "settles e")
    case True
    with st snoc.prems(4) have "2 \<le> inFlight sp"
      by (cases e)
         (auto simp: getMapData_resolved_def getMapData_rejected_def getMapData_finally_def
            split: if_splits)
    with sp True show ?thesis by blast
  next
    case False
    with st snoc.prems(3,4) have np: "\<not> isRefreshing sp" and ip: "0 < inFlight sp"
      by (cases e;
          auto simp: countdownTimer_def toggleAutoRefresh_def getMapData_start_def
            split: if_splits)+
    from snoc.IH [OF sp snoc.prems(2) np ip] obtain es1 e' es2 s1
      where "es = es1 @ e' # es2" and "run s0 es1 = Some s1" and "settles e'"
        and "2 \<le> inFlight s1"
      by blast
    then have "es @ [e] = es1 @ e' # (es2 @ [e])" by simp
    with \<open>run s0 es1 = Some s1\<close> \<open>settles e'\<close> \<open>2 \<le> inFlight s1\<close> show ?thesis by blast
  qed
qed

lemma reachable_run:
  "reachable s \<longleftrightarrow> (\<exists>initialLoading es. run (mount (initialState initialLoading)) es = Some s)"
proof
  assume "reachable s"
  then show "\<exists>initialLoading es. run (mount (initialState initialLoading)) es = Some s"
  proof (induction rule: reachable.induct)
    case (mounted initialLoading)
    have "run (mount (initialState initialLoading)) [] = Some (mount (initialState initialLoading))"
      by simp
    then show ?case by blast
  next
    case (stepped s e s')
    then obtain l es where "run (mount (initialState l)) es = Some s" by blast
    with stepped.hyps(2) have "run (mount (initialState l)) (es @ [e]) = Some s'"
      by (simp add: run_append)
    then show ?case by blast
  qed
next
  assume "\<exists>initialLoading es. run (mount (initialState initialLoading)) es = Some s"
  then show "reachable s" using reachable.mounted run_reachable by blast
qed

text \<open>
  Claim C10, amended. The interval callback has no in-flight guard: there is a reachable
  state with \<open>isRefreshing\<close> set and one fetch in flight in which a tick starts a second
  fetch, and in every state a tick with the countdown at 1 or below starts a fetch.
  A click on "Refresh Now" is impossible while \<open>isRefreshing\<close> holds. It can start a
  fetch that overlaps one in flight only after a promise settled while at least two
  fetches were in flight (which clears the flag with a fetch still in flight), and
  such a state is reachable.
\<close>

theorem timer_starts_overlapping_fetch:
  "(\<exists>s s'. reachable s \<and> isRefreshing s \<and> inFlight s = 1
        \<and> step s Tick = Some s' \<and> inFlight s' = 2)
   \<and> (\<forall>s. isRefreshing s \<longrightarrow> step s RefreshNow = None)
   \<and> (\<forall>s. autoRefreshEnabled s \<and> countdown s \<le> 1 \<longrightarrow>
         step s Tick = Some (getMapData_start (s\<lparr>countdown := 300\<rparr>))
         \<and> inFlight (getMapData_start (s\<lparr>countdown := 300\<rparr>)) = inFlight s + 1)
   \<and> (\<exists>s s'. reachable s \<and> \<not> isRefreshing s \<and> inFlight s = 1
        \<and> step s RefreshNow = Some s' \<and> inFlight s' = 2)
   \<and> (\<forall>initialLoading es s s'.
         run (mount (initialState initialLoading)) es = Some s
         \<and> 0 < inFlight s \<and> step s RefreshNow = Some s' \<longrightarrow>
         (\<exists>es1 e es2 s1. es = es1 @ e # es2
            \<and> run (mount (initialState initialLoading)) es1 = Some s1
            \<and> settles e \<and> 2 \<le> inFlight s1))"
proof (intro conjI)
  let ?s = "\<lparr>locations = [], loading = False, error = None, lastUpdated = ''t'',
        isRefreshing = True, autoRefreshEnabled = True, countdown = 1, inFlight = 1\<rparr>"
  let ?u = "\<lparr>locations = [], loading = False, error = None, lastUpdated = ''u'',
        isRefreshing = False, autoRefreshEnabled = True, countdown = 300, inFlight = 1\<rparr>"
  have "reachable (mount (initialState False))" by (rule reachable.mounted)
  then have r: "reachable ?s" using low_countdown_state by (rule run_reachable)
  moreover have "isRefreshing ?s \<and> inFlight ?s = 1" by simp
  moreover have "step ?s Tick = Some (countdownTimer ?s) \<and> inFlight (countdownTimer ?s) = 2"
    by (simp add: countdownTimer_def getMapData_start_def)
  ultimately show "\<exists>s s'. reachable s \<and> isRefreshing s \<and> inFlight s = 1
        \<and> step s Tick = Some s' \<and> inFlight s' = 2"
    by blast
  from r have "reachable ?u" using cleared_flag_state by (rule run_reachable)
  moreover have "\<not> isRefreshing ?u \<and> inFlight ?u = 1" by simp
  moreover have "step ?u RefreshNow = Some (getMapData_start ?u)
      \<and> inFlight (getMapData_start ?u) = 2"
    by (simp add: getMapData_start_def)
  ultimately show "\<exists>s s'. reachable s \<and> \<not> isRefreshing s \<and> inFlight s = 1
        \<and> step s RefreshNow = Some s' \<and> inFlight s' = 2"
    by blast
next
  show "\<forall>s. isRefreshing s \<longrightarrow> step s RefreshNow = None" by simp
next
  show "\<forall>s. autoRefreshEnabled s \<and> countdown s \<le> 1 \<longrightarrow>
         step s Tick = Some (getMapData_start (s\<lparr>countdown := 300\<rparr>))
         \<and> inFlight (getMapData_start (s\<lparr>countdown := 300\<rparr>)) = inFlight s + 1"
    by (simp add: countdownTimer_def getMapData_start_def)
next
  show "\<forall>initialLoading es s s'.
         run (mount (initialState initialLoading)) es = Some s
         \<and> 0 < inFlight s \<and> step s RefreshNow = Some s' \<longrightarrow>
         (\<exists>es1 e es2 s1. es = es1 @ e # es2
            \<and> run (mount (initialState initialLoading)) es1 = Some s1
            \<and> settles e \<and> 2 \<le> inFlight s1)"
  proof (intro allI impI)
    fix initialLoading es s s'
    assume a: "run (mount (initialState initialLoading)) es = Some s
         \<and> 0 < inFlight s \<and> step s RefreshNow = Some s'"
    then have "\<not> isRefreshing s" by (auto split: if_splits)
    moreover have "isRefreshing (mount (initialState initialLoading))"
      by (simp add: mount_def getMapData_start_def)
    ultimately show "\<exists>es1 e es2 s1. es = es1 @ e # es2
            \<and> run (mount (initialState initialLoading)) es1 = Some s1
            \<and> settles e \<and> 2 \<le> inFlight s1"
      using a flag_cleared_history by blast
  qed
qed

theorem timer_starts_overlapping_fetch_witness:
  "isRefreshing \<lparr>locations = [], loading = False, error = None, lastUpdated = ''t'',
        isRefreshing = True, autoRefreshEnabled = True, countdown = 1, inFlight = 1\<rparr>
   \<and> step \<lparr>locations = [], loading = False, error = None, lastUpdated = ''t'',
        isRefreshing = True, autoRefreshEnabled = True, countdown = 1, inFlight = 1\<rparr> RefreshNow
       = None
   \<and> step \<lparr>locations = [], loading = False, error = None, lastUpdated = ''t'',
        isRefreshing = True, autoRefreshEnabled = True, countdown = 1, inFlight = 1\<rparr> Tick
       = Some \<lparr>locations = [], loading = False, error = None, lastUpdated = ''t'',
        isRefreshing = True, autoRefreshEnabled = True, countdown = 300, inFlight = 2\<rparr>
   \<and> run (mount (initialState False))
        (([FetchResolved [] ''t''] @ replicate 298 Tick @ [RefreshNow, Tick])
          @ [Tick, FetchResolved [] ''u''])
       = Some \<lparr>locations = [], loading = False, error = None, lastUpdated = ''u'',
        isRefreshing = False, autoRefreshEnabled = True, countdown = 300, inFlight = 1\<rparr>
   \<and> (\<exists>es1 e es2 s1.
         ([FetchResolved [] ''t''] @ replicate 298 Tick @ [RefreshNow, Tick])
           @ [Tick, FetchResolved [] ''u''] = es1 @ e # es2
         \<and> run (mount (initialState False)) es1 = Some s1 \<and> settles e \<and> 2 \<le> inFlight s1)"
proof -
  let ?s = "\<lparr>locations = [], loading = False, error = None, lastUpdated = ''t'',
        isRefreshing = True, autoRefreshEnabled = True, countdown = 1, inFlight = 1\<rparr>"
  let ?u = "\<lparr>locations = [], loading = False, error = None, lastUpdated = ''u'',
        isRefreshing = False, autoRefreshEnabled = True, countdown = 300, inFlight = 1\<rparr>"
  let ?es = "([FetchResolved [] ''t''] @ replicate 298 Tick @ [RefreshNow, Tick])
          @ [Tick, FetchResolved [] ''u'']"
  have i: "isRefreshing ?s" and t: "autoRefreshEnabled ?s \<and> countdown ?s \<le> 1" by simp_all
  from timer_starts_overlapping_fetch i have click: "step ?s RefreshNow = None" by blast
  from timer_starts_overlapping_fetch t
  have "step ?s Tick = Some (getMapData_start (?s\<lparr>countdown := 300\<rparr>))" by blast
  then have tick: "step ?s Tick = Some \<lparr>locations = [], loading = False, error = None,
        lastUpdated = ''t'', isRefreshing = True, autoRefreshEnabled = True, countdown = 300,
        inFlight = 2\<rparr>"
    by (simp add: getMapData_start_def)
  have tr: "run (mount (initialState False)) ?es = Some ?u"
    by (simp only: run_append [of _ "[FetchResolved [] ''t''] @ replicate 298 Tick @ [RefreshNow, Tick]"]
        low_countdown_state option.case cleared_flag_state)
  have "0 < inFlight ?u \<and> step ?u RefreshNow = Some (getMapData_start ?u)" by simp
  with tr timer_starts_overlapping_fetch
  have "\<exists>es1 e es2 s1. ?es = es1 @ e # es2
         \<and> run (mount (initialState False)) es1 = Some s1 \<and> settles e \<and> 2 \<le> inFlight s1"
    by blast
  with i click tick tr show ?thesis by simp
qed

end
